theory Spec2Isabelle
  imports Complex_Main "HOL-Library.AList" "HOL-Library.Multiset"
begin

section \<open>Host-language values\<close>

text \<open>
  A JavaScript string is represented by the byte sequence of its UTF-8 encoding, so
  \<open>Buffer.byteLength(s, 'utf8')\<close> is the length of the list. The separators (slash and
  backslash) are single bytes that occur inside no multi-byte sequence, hence \<open>replaceAll\<close>
  and \<open>split\<close> on them act on the bytes as they act on the code units.
\<close>

definition getUtf8ByteLength :: "string \<Rightarrow> nat" where
  "getUtf8ByteLength s = length s"

text \<open>
  A JavaScript \<open>number\<close>: a finite value, \<open>NaN\<close> or an infinity. Byte lengths, token
  counts and part indices are natural numbers throughout.
\<close>

datatype number = Finite rat | NaN | PosInfinity | NegInfinity

fun isSafeInteger :: "number \<Rightarrow> bool" where
  "isSafeInteger (Finite q) = (q = of_int \<lfloor>q\<rfloor> \<and> \<bar>q\<bar> \<le> 2 ^ 53 - 1)"
| "isSafeInteger NaN = False"
| "isSafeInteger PosInfinity = False"
| "isSafeInteger NegInfinity = False"

text \<open>The comparison \<open>x <= 0\<close> on numbers.\<close>

fun leqZero :: "number \<Rightarrow> bool" where
  "leqZero (Finite q) = (q \<le> 0)"
| "leqZero NaN = False"
| "leqZero PosInfinity = False"
| "leqZero NegInfinity = True"

fun toNat :: "number \<Rightarrow> nat" where
  "toNat (Finite q) = nat \<lfloor>q\<rfloor>"
| "toNat NaN = 0"
| "toNat PosInfinity = 0"
| "toNat NegInfinity = 0"

text \<open>The decimal rendering of a part index inside a template string.\<close>

fun showNat :: "nat \<Rightarrow> string" where
  "showNat n =
     (if n < 10 then [char_of (48 + n)]
      else showNat (n div 10) @ [char_of (48 + n mod 10)])"

declare showNat.simps [simp del]

section \<open>Data model\<close>

text \<open>
  Field names follow the source. Where two interfaces share a field name the earlier
  record's field is written qualified (\<open>ProcessedFile.content\<close>, \<open>OutputConfig.filePath\<close>,
  \<open>RepomixConfigMerged.tokenCount\<close>).
\<close>

record ProcessedFile =
  path :: string
  content :: string

record OutputSplitGroup =
  rootEntry :: string
  processedFiles :: "ProcessedFile list"
  allFilePaths :: "string list"

text \<open>
  The merged configuration. Only the fields read by the splitter are named; every other
  field lives in the extension slot of its record, which record update leaves alone (as
  object spread does).
\<close>

record GitOutputConfig =
  includeDiffs :: bool
  includeLogs :: bool

record 'g OutputConfig =
  filePath :: string
  git :: "'g GitOutputConfig_scheme"

record TokenCountConfig =
  encoding :: string

record ('g, 'o) RepomixConfigMerged =
  "output" :: "('g, 'o) OutputConfig_scheme"
  tokenCount :: TokenCountConfig

record SplitInfo =
  partNumber :: nat
  totalParts :: nat
  totalFiles :: nat

record OutputSplitPart =
  index :: nat
  filePath :: string
  content :: string
  byteLength :: nat
  tokenCount :: nat
  groups :: "OutputSplitGroup list option"

text \<open>
  Every \<open>throw\<close> of the module is a constructor; the two size errors carry the root entry
  (or file path), the measured size and the limit that the message prints. A collaborator
  (renderer, tokenizer) answers with a value or rejects with a reason of its own;
  \<open>CollaboratorError\<close> is such a rejection, passed on unchanged.
\<close>

datatype error =
    InvalidMaxBytesPerPart number
  | InvalidMaxTokensPerPart number
  | ExceedsMaxSize string nat nat
  | ExceedsMaxTokens string nat nat
  | CollaboratorError string

fun propagate :: "string + 'a \<Rightarrow> error + 'a" where
  "propagate (Inl reason) = Inl (CollaboratorError reason)"
| "propagate (Inr x) = Inr x"

text \<open>
  Calls that leave the module are recorded, in order, as events: the progress callback
  (its message reduced to what it reports), the renderer with its seven arguments, and
  the task runner.
\<close>

datatype progress = Evaluating nat string | PreCalculating

datatype ('c, 'd, 'l) event =
    ProgressCallback progress
  | GenerateOutputCall "string list" 'c "ProcessedFile list" "string list"
      "'d option" "'l option" "SplitInfo option"
  | InitTaskRunner
  | TaskRunnerRun string string string
  | CalculateOutputMetrics string string
  | TaskRunnerCleanup

type_synonym ('c, 'd, 'l) GenerateOutputFn =
  "string list \<Rightarrow> 'c \<Rightarrow> ProcessedFile list \<Rightarrow> string list \<Rightarrow>
   'd option \<Rightarrow> 'l option \<Rightarrow> SplitInfo option \<Rightarrow> string + string"

record ('c, 'd, 'l) Deps =
  generateOutput :: "('c, 'd, 'l) GenerateOutputFn"

text \<open>
  What the module imports from the runtime and from modules outside this unit:
  \<open>String.prototype.localeCompare\<close>, \<open>path.extname\<close>, the task runner's \<open>run\<close> (content,
  encoding, path) and \<open>calculateOutputMetrics\<close> (content, encoding). The renderer and the
  tokenizer are functions of their arguments that answer or reject; a call that never
  settles is outside the model.
\<close>

record Env =
  localeCompare :: "string \<Rightarrow> string \<Rightarrow> int"
  extname :: "string \<Rightarrow> string"
  taskRunnerRun :: "string \<Rightarrow> string \<Rightarrow> string \<Rightarrow> string + nat"
  calculateOutputMetrics :: "string \<Rightarrow> string \<Rightarrow> string + nat"

section \<open>Grouping by root entry\<close>

definition win32_sep :: char where
  "win32_sep = CHR 0x5C"

definition posix_sep :: char where
  "posix_sep = CHR ''/''"

text \<open>\<open>replaceAll\<close> with a one-character pattern and replacement.\<close>

definition replaceAll :: "char \<Rightarrow> char \<Rightarrow> string \<Rightarrow> string" where
  "replaceAll pat rep s = map (\<lambda>c. if c = pat then rep else c) s"

text \<open>\<open>split\<close> on a one-character separator; the empty string splits to one empty piece.\<close>

fun split :: "char \<Rightarrow> string \<Rightarrow> string list" where
  "split sep [] = [[]]"
| "split sep (c # cs) =
     (if c = sep then [] # split sep cs
      else (case split sep cs of
              [] \<Rightarrow> [[c]]
            | s # ss \<Rightarrow> (c # s) # ss))"

text \<open>
  \<open>const [first] = normalized.split('/'); return first || normalized\<close>: an absent or
  empty first piece is falsy.
\<close>

definition getRootEntry :: "string \<Rightarrow> string" where
  "getRootEntry relativeFilePath =
     (let normalized = replaceAll win32_sep posix_sep relativeFilePath
      in case split posix_sep normalized of
           [] \<Rightarrow> normalized
         | first # _ \<Rightarrow> if first = [] then normalized else first)"

text \<open>
  The \<open>Map\<close> from root entry to group is an association list in insertion order:
  \<open>map_of\<close> is \<open>get\<close>, and \<open>AList.update\<close> is \<open>set\<close> (a new key goes to the end, a
  present key keeps its place). Pushing onto a group found in the map rewrites its entry.
\<close>

definition addFilePath ::
  "(string \<times> OutputSplitGroup) list \<Rightarrow> string \<Rightarrow> (string \<times> OutputSplitGroup) list" where
  "addFilePath groupsByRootEntry fp =
     (let r = getRootEntry fp
      in case map_of groupsByRootEntry r of
           Some existing \<Rightarrow>
             AList.update r (existing\<lparr>allFilePaths := allFilePaths existing @ [fp]\<rparr>)
               groupsByRootEntry
         | None \<Rightarrow>
             AList.update r \<lparr>rootEntry = r, processedFiles = [], allFilePaths = [fp]\<rparr>
               groupsByRootEntry)"

definition addProcessedFile ::
  "(string \<times> OutputSplitGroup) list \<Rightarrow> ProcessedFile \<Rightarrow> (string \<times> OutputSplitGroup) list" where
  "addProcessedFile groupsByRootEntry pf =
     (let r = getRootEntry (path pf)
      in case map_of groupsByRootEntry r of
           Some existing \<Rightarrow>
             AList.update r (existing\<lparr>processedFiles := processedFiles existing @ [pf]\<rparr>)
               groupsByRootEntry
         | None \<Rightarrow>
             AList.update r \<lparr>rootEntry = r, processedFiles = [pf], allFilePaths = [path pf]\<rparr>
               groupsByRootEntry)"

text \<open>
  \<open>Array.prototype.sort\<close> with a comparator is stable; for a consistent comparator its
  result is the stable sorted arrangement, computed here by insertion from the right.
\<close>

fun insertGroup ::
  "(string \<Rightarrow> string \<Rightarrow> int) \<Rightarrow> OutputSplitGroup \<Rightarrow> OutputSplitGroup list \<Rightarrow> OutputSplitGroup list" where
  "insertGroup cmp a [] = [a]"
| "insertGroup cmp a (b # bs) =
     (if cmp (rootEntry a) (rootEntry b) \<le> 0 then a # b # bs
      else b # insertGroup cmp a bs)"

definition sortGroups ::
  "(string \<Rightarrow> string \<Rightarrow> int) \<Rightarrow> OutputSplitGroup list \<Rightarrow> OutputSplitGroup list" where
  "sortGroups cmp gs = foldr (insertGroup cmp) gs []"

definition buildOutputSplitGroups ::
  "Env \<Rightarrow> ProcessedFile list \<Rightarrow> string list \<Rightarrow> OutputSplitGroup list" where
  "buildOutputSplitGroups env pfs afps =
     (let groupsByRootEntry = foldl addProcessedFile (foldl addFilePath [] afps) pfs
      in sortGroups (localeCompare env) (map snd groupsByRootEntry))"

section \<open>Part naming, chunk configuration, rendering\<close>

definition buildSplitOutputFilePath :: "Env \<Rightarrow> string \<Rightarrow> nat \<Rightarrow> string" where
  "buildSplitOutputFilePath env baseFilePath partIndex =
     (let ext = extname env baseFilePath
      in if ext = [] then baseFilePath @ ''.'' @ showNat partIndex
         else (let baseWithoutExt = take (length baseFilePath - length ext) baseFilePath
               in baseWithoutExt @ ''.'' @ showNat partIndex @ ext))"

definition makeChunkConfig ::
  "('g, 'o, 'c) RepomixConfigMerged_scheme \<Rightarrow> nat \<Rightarrow> ('g, 'o, 'c) RepomixConfigMerged_scheme" where
  "makeChunkConfig baseConfig partIndex =
     (if partIndex = 1 then baseConfig
      else baseConfig\<lparr>output := (output baseConfig)
             \<lparr>git := (git (output baseConfig))\<lparr>includeDiffs := False, includeLogs := False\<rparr>\<rparr>\<rparr>)"

text \<open>\<open>renderFiles\<close> returns the renderer's answer and the call it made.\<close>

definition renderFiles ::
  "ProcessedFile list \<Rightarrow> string list \<Rightarrow> nat \<Rightarrow> string list \<Rightarrow>
   ('g, 'o, 'c) RepomixConfigMerged_scheme \<Rightarrow> 'd option \<Rightarrow> 'l option \<Rightarrow>
   (('g, 'o, 'c) RepomixConfigMerged_scheme, 'd, 'l) GenerateOutputFn \<Rightarrow> SplitInfo option \<Rightarrow>
   (error + string) \<times> (('g, 'o, 'c) RepomixConfigMerged_scheme, 'd, 'l) event list" where
  "renderFiles pfs afps partIndex rootDirs baseConfig gitDiffResult gitLogResult
     generateOutputFn splitInfo =
     (let chunkConfig = makeChunkConfig baseConfig partIndex;
          diff = (if partIndex = 1 then gitDiffResult else None);
          logs = (if partIndex = 1 then gitLogResult else None)
      in (propagate (generateOutputFn rootDirs chunkConfig pfs afps diff logs splitInfo),
          [GenerateOutputCall rootDirs chunkConfig pfs afps diff logs splitInfo]))"

section \<open>Splitting by bytes\<close>

record ByteSplitState =
  parts :: "OutputSplitPart list"
  currentGroups :: "OutputSplitGroup list"
  currentContent :: string
  currentBytes :: nat

text \<open>
  One pass of the \<open>for (const group of groups)\<close> body. \<open>render k fs\<close> is the call
  \<open>renderFiles(fs, allFilePaths, k, ...)\<close> with the arguments that do not change inside the
  loop, and \<open>mkPath\<close> is \<open>buildSplitOutputFilePath(baseConfig.output.filePath, _)\<close>. The
  result is the state after the pass (\<open>continue\<close> and falling through both end the pass)
  or the error thrown, with the events so far in either case.
\<close>

definition byteSplitStep ::
  "(nat \<Rightarrow> ProcessedFile list \<Rightarrow> (error + string) \<times> 'ev list) \<Rightarrow>
   (progress \<Rightarrow> 'ev) \<Rightarrow> (nat \<Rightarrow> string) \<Rightarrow> nat \<Rightarrow>
   OutputSplitGroup \<Rightarrow> ByteSplitState \<Rightarrow> 'ev list \<Rightarrow> (error + ByteSplitState) \<times> 'ev list" where
  "byteSplitStep render progressCallback mkPath maxBytesPerPart grp st tr =
     (let partIndex = length (parts st) + 1;
          nextGroups = currentGroups st @ [grp];
          tr1 = tr @ [progressCallback (Evaluating partIndex (rootEntry grp))];
          (rendered, ev) = render partIndex (concat (map processedFiles nextGroups));
          tr2 = tr1 @ ev
      in case rendered of
           Inl e \<Rightarrow> (Inl e, tr2)
         | Inr nextContent \<Rightarrow>
             (let nextBytes = getUtf8ByteLength nextContent
              in if nextBytes \<le> maxBytesPerPart
                 then (Inr (st\<lparr>currentGroups := nextGroups, currentContent := nextContent,
                               currentBytes := nextBytes\<rparr>), tr2)
                 else if length (currentGroups st) = 0
                 then (Inl (ExceedsMaxSize (rootEntry grp) nextBytes maxBytesPerPart), tr2)
                 else
                   (let parts' = parts st @
                          [\<lparr>index = partIndex, filePath = mkPath partIndex,
                            content = currentContent st, byteLength = currentBytes st,
                            tokenCount = 0, groups = Some (currentGroups st)\<rparr>];
                        newPartIndex = length parts' + 1;
                        tr3 = tr2 @ [progressCallback (Evaluating newPartIndex (rootEntry grp))];
                        (renderedSingle, ev') = render newPartIndex (processedFiles grp);
                        tr4 = tr3 @ ev'
                    in case renderedSingle of
                         Inl e \<Rightarrow> (Inl e, tr4)
                       | Inr singleGroupContent \<Rightarrow>
                           (let singleGroupBytes = getUtf8ByteLength singleGroupContent
                            in if singleGroupBytes > maxBytesPerPart
                               then (Inl (ExceedsMaxSize (rootEntry grp) singleGroupBytes
                                            maxBytesPerPart), tr4)
                               else (Inr \<lparr>parts = parts', currentGroups = [grp],
                                          currentContent = singleGroupContent,
                                          currentBytes = singleGroupBytes\<rparr>, tr4)))))"

fun byteSplitLoop ::
  "(nat \<Rightarrow> ProcessedFile list \<Rightarrow> (error + string) \<times> 'ev list) \<Rightarrow>
   (progress \<Rightarrow> 'ev) \<Rightarrow> (nat \<Rightarrow> string) \<Rightarrow> nat \<Rightarrow>
   OutputSplitGroup list \<Rightarrow> ByteSplitState \<Rightarrow> 'ev list \<Rightarrow> (error + ByteSplitState) \<times> 'ev list" where
  "byteSplitLoop render progressCallback mkPath maxBytesPerPart [] st tr = (Inr st, tr)"
| "byteSplitLoop render progressCallback mkPath maxBytesPerPart (grp # rest) st tr =
     (case byteSplitStep render progressCallback mkPath maxBytesPerPart grp st tr of
        (Inl e, tr') \<Rightarrow> (Inl e, tr')
      | (Inr st', tr') \<Rightarrow> byteSplitLoop render progressCallback mkPath maxBytesPerPart rest st' tr')"

text \<open>The closing \<open>if (currentGroups.length > 0)\<close> after the loop.\<close>

definition byteSplitFinish :: "(nat \<Rightarrow> string) \<Rightarrow> ByteSplitState \<Rightarrow> OutputSplitPart list" where
  "byteSplitFinish mkPath st =
     (if length (currentGroups st) > 0
      then (let finalIndex = length (parts st) + 1
            in parts st @
                 [\<lparr>index = finalIndex, filePath = mkPath finalIndex,
                   content = currentContent st, byteLength = currentBytes st,
                   tokenCount = 0, groups = Some (currentGroups st)\<rparr>])
      else parts st)"

definition generateSplitOutputPartsByBytes ::
  "Env \<Rightarrow> string list \<Rightarrow> ('g, 'o, 'c) RepomixConfigMerged_scheme \<Rightarrow> ProcessedFile list \<Rightarrow>
   string list \<Rightarrow> nat \<Rightarrow> 'd option \<Rightarrow> 'l option \<Rightarrow>
   (('g, 'o, 'c) RepomixConfigMerged_scheme, 'd, 'l) Deps \<Rightarrow>
   (error + OutputSplitPart list) \<times> (('g, 'o, 'c) RepomixConfigMerged_scheme, 'd, 'l) event list" where
  "generateSplitOutputPartsByBytes env rootDirs baseConfig pfs afps maxBytesPerPart
     gitDiffResult gitLogResult deps =
     (let groupList = buildOutputSplitGroups env pfs afps
      in if length groupList = 0 then (Inr [], [])
         else
           (let render = (\<lambda>partIndex files.
                   renderFiles files afps partIndex rootDirs baseConfig gitDiffResult gitLogResult
                     (generateOutput deps)
                     (Some \<lparr>partNumber = partIndex, totalParts = length groupList,
                            totalFiles = length afps\<rparr>));
                mkPath = buildSplitOutputFilePath env (OutputConfig.filePath (output baseConfig))
            in case byteSplitLoop render ProgressCallback mkPath maxBytesPerPart groupList
                      \<lparr>parts = [], currentGroups = [], currentContent = [], currentBytes = 0\<rparr> [] of
                 (Inl e, tr) \<Rightarrow> (Inl e, tr)
               | (Inr st, tr) \<Rightarrow> (Inr (byteSplitFinish mkPath st), tr)))"

section \<open>Splitting by tokens\<close>

text \<open>
  \<open>Promise.all\<close> over the per-file counting tasks: every task is started; the result is
  the list of counts, or a rejection when some task rejects (the earliest in file order
  is kept here; which rejection wins at run time depends on timing).
\<close>

fun awaitAll :: "(error + 'a) list \<Rightarrow> error + 'a list" where
  "awaitAll [] = Inr []"
| "awaitAll (Inl e # rs) = Inl e"
| "awaitAll (Inr x # rs) = (case awaitAll rs of Inl e \<Rightarrow> Inl e | Inr xs \<Rightarrow> Inr (x # xs))"

text \<open>\<open>new Map(pairs)\<close> sets the pairs in order, so the last pair of a key is the one kept.\<close>

definition newMap :: "('k \<times> 'v) list \<Rightarrow> ('k \<rightharpoonup> 'v)" where
  "newMap pairs = map_of (rev pairs)"

definition overheadPerFile :: nat where
  "overheadPerFile = 20"

record PackState =
  partFileData :: "ProcessedFile list list"
  currentFiles :: "ProcessedFile list"
  currentTokens :: nat

text \<open>One pass of the \<open>for (const file of processedFiles)\<close> body of the bin-packing.\<close>

definition packStep :: "(string \<rightharpoonup> nat) \<Rightarrow> nat \<Rightarrow> PackState \<Rightarrow> ProcessedFile \<Rightarrow> PackState" where
  "packStep tokenMap maxTokensPerPart st file =
     (let fileTokens = (case tokenMap (path file) of None \<Rightarrow> 0 | Some c \<Rightarrow> c) + overheadPerFile
      in if fileTokens > maxTokensPerPart
         then (let st' = (if length (currentFiles st) > 0
                          then \<lparr>partFileData = partFileData st @ [currentFiles st],
                                currentFiles = [], currentTokens = 0\<rparr>
                          else st)
               in st'\<lparr>partFileData := partFileData st' @ [[file]]\<rparr>)
         else if currentTokens st + fileTokens > maxTokensPerPart
         then \<lparr>partFileData = partFileData st @ [currentFiles st],
               currentFiles = [file], currentTokens = fileTokens\<rparr>
         else st\<lparr>currentFiles := currentFiles st @ [file],
                 currentTokens := currentTokens st + fileTokens\<rparr>)"

definition packFiles :: "(string \<rightharpoonup> nat) \<Rightarrow> nat \<Rightarrow> ProcessedFile list \<Rightarrow> ProcessedFile list list" where
  "packFiles tokenMap maxTokensPerPart pfs =
     (let st = foldl (packStep tokenMap maxTokensPerPart)
                 \<lparr>partFileData = [], currentFiles = [], currentTokens = 0\<rparr> pfs
      in if length (currentFiles st) > 0 then partFileData st @ [currentFiles st]
         else partFileData st)"

text \<open>
  The loop \<open>for (let i = 0; i < totalParts; i++)\<close> over the pending batches: the first
  argument list is \<open>partFileData\<close> from position \<open>i\<close> on. \<open>render k fs\<close> is again the
  \<open>renderFiles\<close> call with its loop-invariant arguments, \<open>metrics c\<close> is
  \<open>calculateOutputMetrics(c, encoding, undefined, {taskRunner})\<close>.
\<close>

fun tokenSplitLoop ::
  "(nat \<Rightarrow> ProcessedFile list \<Rightarrow> (error + string) \<times> 'ev list) \<Rightarrow>
   (string \<Rightarrow> (error + nat) \<times> 'ev list) \<Rightarrow> (nat \<Rightarrow> string) \<Rightarrow> nat \<Rightarrow>
   ProcessedFile list list \<Rightarrow> nat \<Rightarrow> OutputSplitPart list \<Rightarrow> 'ev list \<Rightarrow>
   (error + OutputSplitPart list) \<times> 'ev list" where
  "tokenSplitLoop render metrics mkPath maxTokensPerPart [] i ps tr = (Inr ps, tr)"
| "tokenSplitLoop render metrics mkPath maxTokensPerPart (files # rest) i ps tr =
     (let partIndex = i + 1;
          (rendered, ev) = render partIndex files;
          tr1 = tr @ ev
      in case rendered of
           Inl e \<Rightarrow> (Inl e, tr1)
         | Inr c \<Rightarrow>
             (let (counted, ev') = metrics c;
                  tr2 = tr1 @ ev'
              in case counted of
                   Inl e \<Rightarrow> (Inl e, tr2)
                 | Inr n \<Rightarrow>
                     if length files = 1 \<and> n > maxTokensPerPart
                     then (Inl (ExceedsMaxTokens (path (files ! 0)) n maxTokensPerPart), tr2)
                     else tokenSplitLoop render metrics mkPath maxTokensPerPart rest (i + 1)
                            (ps @ [\<lparr>index = partIndex, filePath = mkPath partIndex, content = c,
                                    byteLength = getUtf8ByteLength c, tokenCount = n,
                                    groups = None\<rparr>])
                            tr2))"

text \<open>
  Steps 1 and 2 of the \<open>try\<close> block: the per-file counts, the \<open>tokenMap\<close> built from
  them, and the batches (\<open>partFileData\<close>) packed with it.
\<close>

definition tokenBatches ::
  "Env \<Rightarrow> string \<Rightarrow> nat \<Rightarrow> ProcessedFile list \<Rightarrow> error + ProcessedFile list list" where
  "tokenBatches env enc maxTokensPerPart pfs =
     (case awaitAll (map (\<lambda>file.
              propagate (taskRunnerRun env (ProcessedFile.content file) enc (path file))) pfs) of
        Inl e \<Rightarrow> Inl e
      | Inr counts \<Rightarrow>
          (let tokenMap = newMap (zip (map path pfs) counts)
           in Inr (packFiles tokenMap maxTokensPerPart pfs)))"

text \<open>
  The body of the \<open>try\<close> block; \<open>generateSplitOutputPartsByTokens\<close> wraps it between the
  creation of the task runner and the \<open>finally\<close> that cleans it up.
\<close>

definition tokenSplitTry ::
  "Env \<Rightarrow> string list \<Rightarrow> ('g, 'o, 'c) RepomixConfigMerged_scheme \<Rightarrow> ProcessedFile list \<Rightarrow>
   string list \<Rightarrow> nat \<Rightarrow> 'd option \<Rightarrow> 'l option \<Rightarrow>
   (('g, 'o, 'c) RepomixConfigMerged_scheme, 'd, 'l) Deps \<Rightarrow>
   (error + OutputSplitPart list) \<times> (('g, 'o, 'c) RepomixConfigMerged_scheme, 'd, 'l) event list" where
  "tokenSplitTry env rootDirs baseConfig pfs afps maxTokensPerPart gitDiffResult gitLogResult deps =
     (let enc = encoding (RepomixConfigMerged.tokenCount baseConfig);
          tr0 = [ProgressCallback PreCalculating] @
                map (\<lambda>file. TaskRunnerRun (ProcessedFile.content file) enc (path file)) pfs
      in case tokenBatches env enc maxTokensPerPart pfs of
           Inl e \<Rightarrow> (Inl e, tr0)
         | Inr batches \<Rightarrow>
             (let render = (\<lambda>partIndex files.
                     renderFiles files afps partIndex rootDirs baseConfig gitDiffResult
                       gitLogResult (generateOutput deps)
                       (Some \<lparr>partNumber = partIndex, totalParts = length batches,
                              totalFiles = length afps\<rparr>));
                  metrics = (\<lambda>c. (propagate (calculateOutputMetrics env c enc),
                                  [CalculateOutputMetrics c enc]));
                  mkPath = buildSplitOutputFilePath env (OutputConfig.filePath (output baseConfig))
              in tokenSplitLoop render metrics mkPath maxTokensPerPart batches 0 [] tr0))"

definition generateSplitOutputPartsByTokens ::
  "Env \<Rightarrow> string list \<Rightarrow> ('g, 'o, 'c) RepomixConfigMerged_scheme \<Rightarrow> ProcessedFile list \<Rightarrow>
   string list \<Rightarrow> nat \<Rightarrow> 'd option \<Rightarrow> 'l option \<Rightarrow>
   (('g, 'o, 'c) RepomixConfigMerged_scheme, 'd, 'l) Deps \<Rightarrow>
   (error + OutputSplitPart list) \<times> (('g, 'o, 'c) RepomixConfigMerged_scheme, 'd, 'l) event list" where
  "generateSplitOutputPartsByTokens env rootDirs baseConfig pfs afps maxTokensPerPart
     gitDiffResult gitLogResult deps =
     (let (res, tr) = tokenSplitTry env rootDirs baseConfig pfs afps maxTokensPerPart
                        gitDiffResult gitLogResult deps
      in (res, [InitTaskRunner] @ tr @ [TaskRunnerCleanup]))"

section \<open>Entry point\<close>

definition generateSplitOutputParts ::
  "Env \<Rightarrow> string list \<Rightarrow> ('g, 'o, 'c) RepomixConfigMerged_scheme \<Rightarrow> ProcessedFile list \<Rightarrow>
   string list \<Rightarrow> number option \<Rightarrow> number option \<Rightarrow> 'd option \<Rightarrow> 'l option \<Rightarrow>
   (('g, 'o, 'c) RepomixConfigMerged_scheme, 'd, 'l) Deps \<Rightarrow>
   (error + OutputSplitPart list) \<times> (('g, 'o, 'c) RepomixConfigMerged_scheme, 'd, 'l) event list" where
  "generateSplitOutputParts env rootDirs baseConfig pfs afps maxBytesPerPart maxTokensPerPart
     gitDiffResult gitLogResult deps =
     (if maxBytesPerPart \<noteq> None \<and>
         (\<not> isSafeInteger (the maxBytesPerPart) \<or> leqZero (the maxBytesPerPart))
      then (Inl (InvalidMaxBytesPerPart (the maxBytesPerPart)), [])
      else if maxTokensPerPart \<noteq> None \<and>
         (\<not> isSafeInteger (the maxTokensPerPart) \<or> leqZero (the maxTokensPerPart))
      then (Inl (InvalidMaxTokensPerPart (the maxTokensPerPart)), [])
      else if maxTokensPerPart \<noteq> None
      then generateSplitOutputPartsByTokens env rootDirs baseConfig pfs afps
             (toNat (the maxTokensPerPart)) gitDiffResult gitLogResult deps
      else if maxBytesPerPart \<noteq> None
      then generateSplitOutputPartsByBytes env rootDirs baseConfig pfs afps
             (toNat (the maxBytesPerPart)) gitDiffResult gitLogResult deps
      else (Inr [], []))"

section \<open>Collaborators of the test suite\<close>

text \<open>
  The stand-ins the repository's tests plug in, used for the concrete runs below: a
  renderer that returns fifty \<open>x\<close> per file, a renderer that joins the file paths with
  commas, and a tokenizer that answers a fixed count per file and a fixed count per
  rendered part (sixty and sixty in the splitting test). \<open>compareCodeUnits\<close>
  orders strings unit by unit and \<open>simpleExtname\<close> cuts at the last dot of the last
  path segment; they agree with \<open>localeCompare\<close> and \<open>path.extname\<close> on the lower-case
  names of the examples.
\<close>

fun compareCodeUnits :: "string \<Rightarrow> string \<Rightarrow> int" where
  "compareCodeUnits [] [] = 0"
| "compareCodeUnits [] (y # ys) = - 1"
| "compareCodeUnits (x # xs) [] = 1"
| "compareCodeUnits (x # xs) (y # ys) =
     (if (of_char x :: nat) < of_char y then - 1
      else if (of_char y :: nat) < of_char x then 1
      else compareCodeUnits xs ys)"

definition simpleExtname :: "string \<Rightarrow> string" where
  "simpleExtname s =
     (let base = rev (takeWhile (\<lambda>c. c \<noteq> CHR ''/'') (rev s));
          r = takeWhile (\<lambda>c. c \<noteq> CHR ''.'') (rev base)
      in if length r = length base \<or> length r + 1 = length base then []
         else CHR ''.'' # rev r)"

definition mockEnvWith :: "nat \<Rightarrow> nat \<Rightarrow> Env" where
  "mockEnvWith perFile perPart =
     \<lparr>localeCompare = compareCodeUnits, extname = simpleExtname,
      taskRunnerRun = (\<lambda>c e p. Inr perFile), calculateOutputMetrics = (\<lambda>c e. Inr perPart)\<rparr>"

definition mockEnv :: Env where
  "mockEnv = mockEnvWith 60 60"

definition mockConfig :: "(unit, unit) RepomixConfigMerged" where
  "mockConfig =
     \<lparr>output = \<lparr>OutputConfig.filePath = ''repomix-output.xml'',
                 git = \<lparr>includeDiffs = False, includeLogs = False\<rparr>\<rparr>,
      RepomixConfigMerged.tokenCount = \<lparr>encoding = ''o200k_base''\<rparr>\<rparr>"

fun joinWith :: "string \<Rightarrow> string list \<Rightarrow> string" where
  "joinWith sep [] = []"
| "joinWith sep [s] = s"
| "joinWith sep (s # t # ts) = s @ sep @ joinWith sep (t # ts)"

definition mockGenerateOutputFifty ::
  "((unit, unit) RepomixConfigMerged, string, string) Deps" where
  "mockGenerateOutputFifty =
     \<lparr>generateOutput = (\<lambda>rootDirs config files paths diff logs info.
          Inr (replicate (length files * 50) CHR ''x''))\<rparr>"

definition mockGenerateOutputPaths ::
  "((unit, unit) RepomixConfigMerged, string, string) Deps" where
  "mockGenerateOutputPaths =
     \<lparr>generateOutput = (\<lambda>rootDirs config files paths diff logs info.
          Inr (joinWith '','' (map path files)))\<rparr>"

text \<open>
  Further stand-ins for runs the tests do not cover: a tokenizer that counts one token
  per byte, so that estimates differ from file to file, and a comparison that, as
  \<open>localeCompare\<close> does for canonically equivalent strings, ties the letter e followed by
  a combining acute accent (bytes 65 CC 81) with the precomposed letter (bytes C3 A9); it
  compares unit by unit after composing that one sequence.
\<close>

definition mockEnvLength :: Env where
  "mockEnvLength =
     \<lparr>localeCompare = compareCodeUnits, extname = simpleExtname,
      taskRunnerRun = (\<lambda>c e p. Inr (length c)),
      calculateOutputMetrics = (\<lambda>c e. Inr (length c))\<rparr>"




text \<open>The files of the tests, and files for further runs.\<close>

definition tokenTestFiles :: "ProcessedFile list" where
  "tokenTestFiles =
     [\<lparr>path = ''file1.ts'', content = ''content1''\<rparr>,
      \<lparr>path = ''file2.ts'', content = ''content2''\<rparr>,
      \<lparr>path = ''file3.ts'', content = ''content3''\<rparr>]"

definition byteTestFiles :: "ProcessedFile list" where
  "byteTestFiles =
     [\<lparr>path = ''src/a.ts'', content = ''source a''\<rparr>,
      \<lparr>path = ''tests/test.ts'', content = ''test content''\<rparr>]"

definition packTestFiles :: "ProcessedFile list" where
  "packTestFiles =
     [\<lparr>path = ''a.ts'', content = replicate 10 CHR ''a''\<rparr>,
      \<lparr>path = ''b.ts'', content = replicate 20 CHR ''b''\<rparr>,
      \<lparr>path = ''c.ts'', content = replicate 30 CHR ''c''\<rparr>,
      \<lparr>path = ''d.ts'', content = replicate 90 CHR ''d''\<rparr>,
      \<lparr>path = ''e.ts'', content = replicate 5 CHR ''e''\<rparr>]"

definition threeRootFiles :: "ProcessedFile list" where
  "threeRootFiles =
     [\<lparr>path = ''a/one.ts'', content = ''one''\<rparr>,
      \<lparr>path = ''b/two.ts'', content = ''two''\<rparr>,
      \<lparr>path = ''c/three.ts'', content = ''three''\<rparr>]"

section \<open>Specification-level notions\<close>

text \<open>
  A budget as the specification words it: a positive integer within the safe integer
  range, that is, at most \<open>2^53 - 1\<close>.
\<close>

definition positiveSafeInteger :: "number \<Rightarrow> bool" where
  "positiveSafeInteger x =
     (case x of
        Finite q \<Rightarrow> of_int \<lfloor>q\<rfloor> = q \<and> 0 < q \<and> q \<le> 9007199254740991
      | _ \<Rightarrow> False)"


text \<open>
  The estimate the bin-packing works with: the file's pre-computed count plus the fixed
  per-file overhead.
\<close>

definition adjustedEstimate :: "(string \<rightharpoonup> nat) \<Rightarrow> ProcessedFile \<Rightarrow> nat" where
  "adjustedEstimate tokenMap file =
     (case tokenMap (path file) of None \<Rightarrow> 0 | Some c \<Rightarrow> c) + 20"

text \<open>
  The greedy bin-pack as the specification words it, over the files still to come, the
  current batch and its running total. A file whose estimate alone exceeds the budget
  flushes a non-empty current batch and stands alone as a pending part; a file that
  would push the running total over the budget flushes the current batch and starts the
  next one; any other file joins the current batch; a non-empty trailing batch is
  flushed.
\<close>

fun greedyPack ::
  "(ProcessedFile \<Rightarrow> nat) \<Rightarrow> nat \<Rightarrow> ProcessedFile list \<Rightarrow> ProcessedFile list \<Rightarrow> nat \<Rightarrow>
   ProcessedFile list list" where
  "greedyPack est budget [] batch running = (if batch = [] then [] else [batch])"
| "greedyPack est budget (f # fs) batch running =
     (if est f > budget
      then (if batch = [] then [] else [batch]) @ [[f]] @ greedyPack est budget fs [] 0
      else if running + est f > budget
      then batch # greedyPack est budget fs [f] (est f)
      else greedyPack est budget fs (batch @ [f]) (running + est f))"

text \<open>
  The byte splitter as the specification words it. \<open>trial k gs\<close> is the document
  rendered for the groups \<open>gs\<close> as part \<open>k\<close>; the state is the list of finished parts
  and the committed accumulator with its document, each part a list of groups with the
  document rendered for it.
\<close>

fun byteSplitSpec ::
  "(nat \<Rightarrow> OutputSplitGroup list \<Rightarrow> error + string) \<Rightarrow> nat \<Rightarrow> OutputSplitGroup list \<Rightarrow>
   (OutputSplitGroup list \<times> string) list \<Rightarrow> OutputSplitGroup list \<Rightarrow> string \<Rightarrow>
   error + (OutputSplitGroup list \<times> string) list" where
  "byteSplitSpec trial budget [] finished acc doc =
     Inr (if acc = [] then finished else finished @ [(acc, doc)])"
| "byteSplitSpec trial budget (g # gs) finished acc doc =
     (case trial (length finished + 1) (acc @ [g]) of
        Inl e \<Rightarrow> Inl e
      | Inr extended \<Rightarrow>
          if getUtf8ByteLength extended \<le> budget
          then byteSplitSpec trial budget gs finished (acc @ [g]) extended
          else if acc = []
          then Inl (ExceedsMaxSize (rootEntry g) (getUtf8ByteLength extended) budget)
          else (case trial (length finished + 2) [g] of
                  Inl e \<Rightarrow> Inl e
                | Inr alone \<Rightarrow>
                    if getUtf8ByteLength alone > budget
                    then Inl (ExceedsMaxSize (rootEntry g) (getUtf8ByteLength alone) budget)
                    else byteSplitSpec trial budget gs (finished @ [(acc, doc)]) [g] alone))"

text \<open>The part record for the \<open>k\<close>-th finished part of a byte split.\<close>

definition bytePart :: "(nat \<Rightarrow> string) \<Rightarrow> nat \<times> OutputSplitGroup list \<times> string \<Rightarrow> OutputSplitPart" where
  "bytePart mkPath x =
     (case x of (k, gs, doc) \<Rightarrow>
        \<lparr>index = k, filePath = mkPath k, content = doc, byteLength = getUtf8ByteLength doc,
         tokenCount = 0, groups = Some gs\<rparr>)"

text \<open>The files embedded in a part of a byte split: those of its groups, in order.\<close>

definition partFiles :: "OutputSplitPart \<Rightarrow> ProcessedFile list" where
  "partFiles p = (case groups p of None \<Rightarrow> [] | Some gs \<Rightarrow> concat (map processedFiles gs))"

text \<open>
  A pending batch passes the exact verification as part \<open>k\<close>: it renders, the document
  is counted, and it is not a single file over the budget.
\<close>

definition batchPasses ::
  "(nat \<Rightarrow> ProcessedFile list \<Rightarrow> error + string) \<Rightarrow> (string \<Rightarrow> error + nat) \<Rightarrow> nat \<Rightarrow>
   nat \<Rightarrow> ProcessedFile list \<Rightarrow> bool" where
  "batchPasses rendering counting budget k files =
     (case rendering k files of
        Inl e \<Rightarrow> False
      | Inr c \<Rightarrow> (case counting c of
                   Inl e \<Rightarrow> False
                 | Inr n \<Rightarrow> \<not> (length files = 1 \<and> n > budget)))"

text \<open>
  The document rendered for \<open>files\<close> as part \<open>k\<close> of \<open>partCount\<close>, the exact token count
  of a rendered document, and the pending batches of a token split, each with the
  arguments a split fixes.
\<close>

definition renderedPart ::
  "string list \<Rightarrow> ('g, 'o, 'c) RepomixConfigMerged_scheme \<Rightarrow> string list \<Rightarrow> 'd option \<Rightarrow> 'l option \<Rightarrow>
   (('g, 'o, 'c) RepomixConfigMerged_scheme, 'd, 'l) Deps \<Rightarrow> nat \<Rightarrow> nat \<Rightarrow> ProcessedFile list \<Rightarrow>
   error + string" where
  "renderedPart rootDirs baseConfig afps gitDiffResult gitLogResult deps partCount k files =
     fst (renderFiles files afps k rootDirs baseConfig gitDiffResult gitLogResult
            (generateOutput deps)
            (Some \<lparr>partNumber = k, totalParts = partCount, totalFiles = length afps\<rparr>))"

definition exactTokenCount :: "Env \<Rightarrow> ('g, 'o, 'c) RepomixConfigMerged_scheme \<Rightarrow> string \<Rightarrow> error + nat" where
  "exactTokenCount env baseConfig c =
     propagate (calculateOutputMetrics env c (encoding (RepomixConfigMerged.tokenCount baseConfig)))"

definition pendingBatches ::
  "Env \<Rightarrow> ('g, 'o, 'c) RepomixConfigMerged_scheme \<Rightarrow> nat \<Rightarrow> ProcessedFile list \<Rightarrow>
   error + ProcessedFile list list" where
  "pendingBatches env baseConfig budget pfs =
     tokenBatches env (encoding (RepomixConfigMerged.tokenCount baseConfig)) budget pfs"

text \<open>
  The trial document of the byte splitter for the groups \<open>gs\<close> as part \<open>k\<close>: all their
  files rendered together, with the number of groups as provisional part count.
\<close>

definition byteTrial ::
  "Env \<Rightarrow> string list \<Rightarrow> ('g, 'o, 'c) RepomixConfigMerged_scheme \<Rightarrow> ProcessedFile list \<Rightarrow>
   string list \<Rightarrow> 'd option \<Rightarrow> 'l option \<Rightarrow>
   (('g, 'o, 'c) RepomixConfigMerged_scheme, 'd, 'l) Deps \<Rightarrow> nat \<Rightarrow> OutputSplitGroup list \<Rightarrow>
   error + string" where
  "byteTrial env rootDirs baseConfig pfs afps gitDiffResult gitLogResult deps k gs =
     renderedPart rootDirs baseConfig afps gitDiffResult gitLogResult deps
       (length (buildOutputSplitGroups env pfs afps)) k (concat (map processedFiles gs))"

text \<open>
  Auxiliary notions of the proofs. \<open>groupFor k\<close> is the group the grouping builds for
  the root entry \<open>k\<close>, and \<open>groupsInv\<close> relates the map of groups to the paths and
  files added so far.
\<close>

definition groupFor :: "string \<Rightarrow> string list \<Rightarrow> ProcessedFile list \<Rightarrow> OutputSplitGroup" where
  "groupFor k afps pfs =
     \<lparr>rootEntry = k,
      processedFiles = filter (\<lambda>f. getRootEntry (path f) = k) pfs,
      allFilePaths =
        (if filter (\<lambda>p. getRootEntry p = k) afps = []
         then map path (take 1 (filter (\<lambda>f. getRootEntry (path f) = k) pfs))
         else filter (\<lambda>p. getRootEntry p = k) afps)\<rparr>"

definition groupsInv ::
  "(string \<times> OutputSplitGroup) list \<Rightarrow> string list \<Rightarrow> ProcessedFile list \<Rightarrow> bool" where
  "groupsInv m afps pfs \<longleftrightarrow>
     distinct (map fst m) \<and>
     set (map fst m) = getRootEntry ` set afps \<union> (\<lambda>f. getRootEntry (path f)) ` set pfs \<and>
     (\<forall>k g. map_of m k = Some g \<longrightarrow> g = groupFor k afps pfs)"

definition finishResult :: "(nat \<Rightarrow> string) \<Rightarrow> error + ByteSplitState \<Rightarrow> error + OutputSplitPart list" where
  "finishResult mkPath r = (case r of Inl e \<Rightarrow> Inl e | Inr st \<Rightarrow> Inr (byteSplitFinish mkPath st))"

definition specParts ::
  "(nat \<Rightarrow> string) \<Rightarrow> error + (OutputSplitGroup list \<times> string) list \<Rightarrow> error + OutputSplitPart list" where
  "specParts mkPath r =
     (case r of Inl e \<Rightarrow> Inl e | Inr res \<Rightarrow> Inr (map (bytePart mkPath) (enumerate 1 res)))"

section \<open>Root entries\<close>

lemma split_nonempty: "split sep s \<noteq> []"
  by (induction s) (auto split: list.splits)

lemma hd_split: "hd (split sep s) = takeWhile (\<lambda>c. c \<noteq> sep) s"
  by (induction s) (auto split: list.splits simp: split_nonempty)

text \<open>
  C10. \<open>getRootEntry\<close> turns every backslash into a slash and returns the first
  slash-delimited segment of the result, except that when this segment is empty (the
  empty path, or a path that starts with a separator) it returns the whole normalized
  path.
\<close>

theorem getRootEntry_first_segment:
  "getRootEntry p =
     (let normalized = map (\<lambda>c. if c = CHR 0x5C then CHR ''/'' else c) p;
          first = takeWhile (\<lambda>c. c \<noteq> CHR ''/'') normalized
      in if first = [] then normalized else first)"
proof -
  obtain f rest where "split posix_sep (replaceAll win32_sep posix_sep p) = f # rest"
    using split_nonempty by (cases "split posix_sep (replaceAll win32_sep posix_sep p)") auto
  moreover from this have "f = takeWhile (\<lambda>c. c \<noteq> posix_sep) (replaceAll win32_sep posix_sep p)"
    using hd_split [of posix_sep "replaceAll win32_sep posix_sep p"] by simp
  ultimately show ?thesis
    by (simp add: getRootEntry_def Let_def replaceAll_def win32_sep_def posix_sep_def)
qed

section \<open>What the renderer is given\<close>

text \<open>
  C9. A render with part index greater than 1 passes no diff and no log data and a
  configuration that is the base configuration with \<open>output.git.includeDiffs\<close> and
  \<open>output.git.includeLogs\<close> set to false, every other field as it was; a render with
  part index 1 passes the base configuration and the caller's diff and log data as
  they are.
\<close>

theorem makeChunkConfig_renderFiles:
  "(1 < partIndex \<longrightarrow>
      renderFiles pfs afps partIndex rootDirs baseConfig gitDiffResult gitLogResult gen info =
        (propagate (gen rootDirs (makeChunkConfig baseConfig partIndex) pfs afps None None info),
         [GenerateOutputCall rootDirs (makeChunkConfig baseConfig partIndex) pfs afps None None info])
      \<and> makeChunkConfig baseConfig partIndex =
          baseConfig\<lparr>output := (output baseConfig)
            \<lparr>git := (git (output baseConfig))\<lparr>includeDiffs := False, includeLogs := False\<rparr>\<rparr>\<rparr>
      \<and> includeDiffs (git (output (makeChunkConfig baseConfig partIndex))) = False
      \<and> includeLogs (git (output (makeChunkConfig baseConfig partIndex))) = False
      \<and> GitOutputConfig.more (git (output (makeChunkConfig baseConfig partIndex)))
          = GitOutputConfig.more (git (output baseConfig))
      \<and> OutputConfig.filePath (output (makeChunkConfig baseConfig partIndex))
          = OutputConfig.filePath (output baseConfig)
      \<and> OutputConfig.more (output (makeChunkConfig baseConfig partIndex))
          = OutputConfig.more (output baseConfig)
      \<and> RepomixConfigMerged.tokenCount (makeChunkConfig baseConfig partIndex)
          = RepomixConfigMerged.tokenCount baseConfig
      \<and> RepomixConfigMerged.more (makeChunkConfig baseConfig partIndex)
          = RepomixConfigMerged.more baseConfig)
   \<and> (partIndex = 1 \<longrightarrow>
      makeChunkConfig baseConfig partIndex = baseConfig
      \<and> renderFiles pfs afps partIndex rootDirs baseConfig gitDiffResult gitLogResult gen info =
        (propagate (gen rootDirs baseConfig pfs afps gitDiffResult gitLogResult info),
         [GenerateOutputCall rootDirs baseConfig pfs afps gitDiffResult gitLogResult info]))"
  by (simp add: renderFiles_def makeChunkConfig_def Let_def)

theorem makeChunkConfig_renderFiles_witness:
  "(1 :: nat) < 2 \<and>
   renderFiles [\<lparr>path = ''file2.ts'', content = ''content2''\<rparr>] [''file1.ts'', ''file2.ts''] 2 [''/test'']
     (mockConfig\<lparr>output := (output mockConfig)\<lparr>git := \<lparr>includeDiffs = True, includeLogs = True\<rparr>\<rparr>\<rparr>)
     (Some ''diff'') (Some ''log'') (generateOutput mockGenerateOutputPaths) None
   = (Inr ''file2.ts'',
      [GenerateOutputCall [''/test''] mockConfig [\<lparr>path = ''file2.ts'', content = ''content2''\<rparr>]
         [''file1.ts'', ''file2.ts''] None None None]) \<and>
   renderFiles [\<lparr>path = ''file1.ts'', content = ''content1''\<rparr>] [''file1.ts'', ''file2.ts''] 1 [''/test'']
     (mockConfig\<lparr>output := (output mockConfig)\<lparr>git := \<lparr>includeDiffs = True, includeLogs = True\<rparr>\<rparr>\<rparr>)
     (Some ''diff'') (Some ''log'') (generateOutput mockGenerateOutputPaths) None
   = (Inr ''file1.ts'',
      [GenerateOutputCall [''/test'']
         (mockConfig\<lparr>output := (output mockConfig)\<lparr>git := \<lparr>includeDiffs = True, includeLogs = True\<rparr>\<rparr>\<rparr>)
         [\<lparr>path = ''file1.ts'', content = ''content1''\<rparr>]
         [''file1.ts'', ''file2.ts''] (Some ''diff'') (Some ''log'') None])"
  using
    makeChunkConfig_renderFiles [where partIndex = 2 and rootDirs = "[''/test'']"
      and pfs = "[\<lparr>path = ''file2.ts'', content = ''content2''\<rparr>]" and afps = "[''file1.ts'', ''file2.ts'']"
      and baseConfig = "mockConfig\<lparr>output := (output mockConfig)\<lparr>git := \<lparr>includeDiffs = True, includeLogs = True\<rparr>\<rparr>\<rparr>"
      and gitDiffResult = "Some ''diff''" and gitLogResult = "Some ''log''"
      and gen = "generateOutput mockGenerateOutputPaths" and info = None]
    makeChunkConfig_renderFiles [where partIndex = 1 and rootDirs = "[''/test'']"
      and pfs = "[\<lparr>path = ''file1.ts'', content = ''content1''\<rparr>]" and afps = "[''file1.ts'', ''file2.ts'']"
      and baseConfig = "mockConfig\<lparr>output := (output mockConfig)\<lparr>git := \<lparr>includeDiffs = True, includeLogs = True\<rparr>\<rparr>\<rparr>"
      and gitDiffResult = "Some ''diff''" and gitLogResult = "Some ''log''"
      and gen = "generateOutput mockGenerateOutputPaths" and info = None]
  by (simp add: mockConfig_def mockGenerateOutputPaths_def)

section \<open>Budget validation\<close>

lemma valid_budget_iff: "(isSafeInteger x \<and> \<not> leqZero x) = positiveSafeInteger x"
  by (cases x) (auto simp: positiveSafeInteger_def)

text \<open>
  C8. A supplied byte or token budget that is not a positive integer within the safe
  integer range makes the entry point fail at once with the corresponding error and
  with no call made (no progress message, no render, no tokenizer task); with neither
  budget supplied it returns the empty list, again with no call made.
\<close>

theorem generateSplitOutputParts_validation:
  "(maxBytesPerPart = Some b \<and> \<not> positiveSafeInteger b \<longrightarrow>
      generateSplitOutputParts env rootDirs baseConfig pfs afps maxBytesPerPart maxTokensPerPart
        gitDiffResult gitLogResult deps = (Inl (InvalidMaxBytesPerPart b), []))
   \<and> (maxTokensPerPart = Some t \<and> \<not> positiveSafeInteger t \<and>
        (maxBytesPerPart = None \<or> positiveSafeInteger (the maxBytesPerPart)) \<longrightarrow>
      generateSplitOutputParts env rootDirs baseConfig pfs afps maxBytesPerPart maxTokensPerPart
        gitDiffResult gitLogResult deps = (Inl (InvalidMaxTokensPerPart t), []))
   \<and> (maxBytesPerPart = None \<and> maxTokensPerPart = None \<longrightarrow>
      generateSplitOutputParts env rootDirs baseConfig pfs afps maxBytesPerPart maxTokensPerPart
        gitDiffResult gitLogResult deps = (Inr [], []))"
  using valid_budget_iff by (auto simp: generateSplitOutputParts_def)

theorem generateSplitOutputParts_validation_witness:
  "\<not> positiveSafeInteger (Finite 0) \<and> \<not> positiveSafeInteger (Finite (1 / 2)) \<and>
   \<not> positiveSafeInteger NaN \<and> positiveSafeInteger (Finite 70) \<and>
   generateSplitOutputParts mockEnv [''/test''] mockConfig
     [\<lparr>path = ''src/a.ts'', content = ''source a''\<rparr>] [''src/a.ts'']
     (Some (Finite 0)) (Some (Finite 100)) None None mockGenerateOutputFifty
     = (Inl (InvalidMaxBytesPerPart (Finite 0)), []) \<and>
   generateSplitOutputParts mockEnv [''/test''] mockConfig
     [\<lparr>path = ''src/a.ts'', content = ''source a''\<rparr>] [''src/a.ts'']
     (Some (Finite 70)) (Some (Finite (1 / 2))) None None mockGenerateOutputFifty
     = (Inl (InvalidMaxTokensPerPart (Finite (1 / 2))), []) \<and>
   generateSplitOutputParts mockEnv [''/test''] mockConfig
     [\<lparr>path = ''src/a.ts'', content = ''source a''\<rparr>] [''src/a.ts'']
     None (Some NaN) None None mockGenerateOutputFifty
     = (Inl (InvalidMaxTokensPerPart NaN), []) \<and>
   generateSplitOutputParts mockEnv [''/test''] mockConfig
     [\<lparr>path = ''src/a.ts'', content = ''source a''\<rparr>] [''src/a.ts'']
     None None None None mockGenerateOutputFifty
     = (Inr [], [])"
proof -
  have h0: "\<not> positiveSafeInteger (Finite 0)" by (simp add: positiveSafeInteger_def)
  have "\<lfloor>1 / 2 :: rat\<rfloor> = 0" by (rule floor_unique) simp_all
  then have h1: "\<not> positiveSafeInteger (Finite (1 / 2))" by (simp add: positiveSafeInteger_def)
  have h2: "\<not> positiveSafeInteger NaN" by (simp add: positiveSafeInteger_def)
  have h3: "positiveSafeInteger (Finite 70)" by (simp add: positiveSafeInteger_def)
  note T = generateSplitOutputParts_validation [where env = mockEnv and rootDirs = "[''/test'']"
      and baseConfig = mockConfig and pfs = "[\<lparr>path = ''src/a.ts'', content = ''source a''\<rparr>]"
      and afps = "[''src/a.ts'']" and gitDiffResult = None and gitLogResult = None
      and deps = mockGenerateOutputFifty]
  show ?thesis
    using h0 h1 h2 h3
      T [where maxBytesPerPart = "Some (Finite 0)" and b = "Finite 0"
         and maxTokensPerPart = "Some (Finite 100)"]
      T [where maxBytesPerPart = "Some (Finite 70)"
         and maxTokensPerPart = "Some (Finite (1 / 2))" and t = "Finite (1 / 2)"]
      T [where maxBytesPerPart = None and maxTokensPerPart = "Some NaN" and t = NaN]
      T [where maxBytesPerPart = None and maxTokensPerPart = None]
    by simp
qed

section \<open>Grouping\<close>

lemma filter_empty_iff_notin: "filter (\<lambda>p. h p = k) xs = [] \<longleftrightarrow> k \<notin> h ` set xs"
  by (auto simp: filter_empty_conv)

lemma groupsInv_addFilePath:
  assumes "groupsInv m afps []"
  shows "groupsInv (addFilePath m fp) (afps @ [fp]) []"
proof -
  let ?r = "getRootEntry fp"
  from assms have d: "distinct (map fst m)"
    and keys: "set (map fst m) = getRootEntry ` set afps"
    and vals: "\<And>k g. map_of m k = Some g \<Longrightarrow> g = groupFor k afps []"
    by (auto simp: groupsInv_def)
  show ?thesis
  proof (cases "map_of m ?r")
    case None
    then have notin: "?r \<notin> getRootEntry ` set afps"
      using keys by (metis domIff dom_map_of_conv_image_fst set_map)
    have upd: "addFilePath m fp = AList.update ?r \<lparr>rootEntry = ?r, processedFiles = [], allFilePaths = [fp]\<rparr> m"
      using None by (simp add: addFilePath_def Let_def)
    have new: "groupFor ?r (afps @ [fp]) [] = \<lparr>rootEntry = ?r, processedFiles = [], allFilePaths = [fp]\<rparr>"
      using notin by (simp add: groupFor_def filter_empty_iff_notin)
    have other: "\<And>k. k \<noteq> ?r \<Longrightarrow> groupFor k (afps @ [fp]) [] = groupFor k afps []"
      by (simp add: groupFor_def)
    show ?thesis
      unfolding groupsInv_def upd
      using d keys vals new other
      by (auto simp: update_conv' distinct_update update_keys)
  next
    case (Some existing)
    then have ex: "existing = groupFor ?r afps []" using vals by blast
    from Some have isin: "?r \<in> getRootEntry ` set afps"
      using keys by (metis domI dom_map_of_conv_image_fst set_map)
    have upd: "addFilePath m fp = AList.update ?r (existing\<lparr>allFilePaths := allFilePaths existing @ [fp]\<rparr>) m"
      using Some by (simp add: addFilePath_def Let_def)
    have new: "groupFor ?r (afps @ [fp]) [] = existing\<lparr>allFilePaths := allFilePaths existing @ [fp]\<rparr>"
      using isin by (simp add: ex groupFor_def filter_empty_iff_notin)
    have other: "\<And>k. k \<noteq> ?r \<Longrightarrow> groupFor k (afps @ [fp]) [] = groupFor k afps []"
      by (simp add: groupFor_def)
    show ?thesis
      unfolding groupsInv_def upd
      using d keys vals new other isin
      by (auto simp: update_conv' distinct_update update_keys)
  qed
qed

lemma groupsInv_addProcessedFile:
  assumes "groupsInv m afps pfs"
  shows "groupsInv (addProcessedFile m pf) afps (pfs @ [pf])"
proof -
  let ?r = "getRootEntry (path pf)"
  from assms have d: "distinct (map fst m)"
    and keys: "set (map fst m) = getRootEntry ` set afps \<union> (\<lambda>f. getRootEntry (path f)) ` set pfs"
    and vals: "\<And>k g. map_of m k = Some g \<Longrightarrow> g = groupFor k afps pfs"
    by (auto simp: groupsInv_def)
  have other: "\<And>k. k \<noteq> ?r \<Longrightarrow> groupFor k afps (pfs @ [pf]) = groupFor k afps pfs"
    by (simp add: groupFor_def)
  show ?thesis
  proof (cases "map_of m ?r")
    case None
    then have "?r \<notin> set (map fst m)"
      by (metis domIff dom_map_of_conv_image_fst set_map)
    then have notin: "?r \<notin> getRootEntry ` set afps" "?r \<notin> (\<lambda>f. getRootEntry (path f)) ` set pfs"
      using keys by auto
    have upd: "addProcessedFile m pf =
        AList.update ?r \<lparr>rootEntry = ?r, processedFiles = [pf], allFilePaths = [path pf]\<rparr> m"
      using None by (simp add: addProcessedFile_def Let_def)
    have new: "groupFor ?r afps (pfs @ [pf]) = \<lparr>rootEntry = ?r, processedFiles = [pf], allFilePaths = [path pf]\<rparr>"
    proof -
      have "filter (\<lambda>p. getRootEntry p = ?r) afps = []"
           "filter (\<lambda>f. getRootEntry (path f) = ?r) pfs = []"
        using notin by (simp_all only: filter_empty_iff_notin not_False_eq_True)
      then show ?thesis by (simp add: groupFor_def)
    qed
    show ?thesis
      unfolding groupsInv_def upd
      using d keys vals new other
      by (auto simp: update_conv' distinct_update update_keys)
  next
    case (Some existing)
    then have ex: "existing = groupFor ?r afps pfs" using vals by blast
    from Some have isin: "?r \<in> set (map fst m)"
      by (metis domI dom_map_of_conv_image_fst set_map)
    have upd: "addProcessedFile m pf =
        AList.update ?r (existing\<lparr>processedFiles := processedFiles existing @ [pf]\<rparr>) m"
      using Some by (simp add: addProcessedFile_def Let_def)
    have "filter (\<lambda>p. getRootEntry p = ?r) afps = [] \<Longrightarrow>
          filter (\<lambda>f. getRootEntry (path f) = ?r) pfs \<noteq> []"
      using isin keys by (auto simp: filter_empty_iff_notin)
    then have new: "groupFor ?r afps (pfs @ [pf]) = existing\<lparr>processedFiles := processedFiles existing @ [pf]\<rparr>"
      by (auto simp: ex groupFor_def Suc_le_eq)
    show ?thesis
      unfolding groupsInv_def upd
      using d keys vals new other isin
      by (auto simp: update_conv' distinct_update update_keys)
  qed
qed

lemma groupsInv_foldl_paths:
  "groupsInv m afps [] \<Longrightarrow> groupsInv (foldl addFilePath m xs) (afps @ xs) []"
proof (induction xs arbitrary: m afps)
  case Nil then show ?case by simp
next
  case (Cons x xs)
  from Cons.IH [OF groupsInv_addFilePath [OF Cons.prems]] show ?case by simp
qed

lemma groupsInv_foldl_files:
  "groupsInv m afps pfs \<Longrightarrow> groupsInv (foldl addProcessedFile m xs) afps (pfs @ xs)"
proof (induction xs arbitrary: m pfs)
  case Nil then show ?case by simp
next
  case (Cons x xs)
  from Cons.IH [OF groupsInv_addProcessedFile [OF Cons.prems]] show ?case by simp
qed

lemma groupsInv_build:
  "groupsInv (foldl addProcessedFile (foldl addFilePath [] afps) pfs) afps pfs"
proof -
  have "groupsInv [] [] []" by (simp add: groupsInv_def)
  from groupsInv_foldl_files [OF groupsInv_foldl_paths [OF this], of afps pfs] show ?thesis by simp
qed

lemma mset_insertGroup: "mset (insertGroup cmp a xs) = add_mset a (mset xs)"
  by (induction xs) auto

lemma mset_sortGroups: "mset (sortGroups cmp xs) = mset xs"
  unfolding sortGroups_def by (induction xs) (auto simp: mset_insertGroup)

lemma set_sortGroups: "set (sortGroups cmp xs) = set xs"
  by (metis mset_sortGroups set_mset_mset)





lemma build_groups:
  "\<exists>m. groupsInv m afps pfs \<and>
       buildOutputSplitGroups env pfs afps = sortGroups (localeCompare env) (map snd m)"
  using groupsInv_build by (auto simp: buildOutputSplitGroups_def Let_def)

lemma groupsInv_values:
  assumes "groupsInv m afps pfs"
  shows "map snd m = map (\<lambda>k. groupFor k afps pfs) (map fst m)"
proof -
  from assms have d: "distinct (map fst m)"
    and vals: "\<And>k g. map_of m k = Some g \<Longrightarrow> g = groupFor k afps pfs"
    by (auto simp: groupsInv_def)
  have "\<forall>x \<in> set m. snd x = groupFor (fst x) afps pfs"
    using d vals by (metis map_of_eq_Some_iff prod.collapse)
  then show ?thesis by (induction m) auto
qed

lemma rootEntry_groupFor [simp]: "rootEntry (groupFor k afps pfs) = k"
  by (simp add: groupFor_def)

lemma build_props:
  "distinct (map rootEntry (buildOutputSplitGroups env pfs afps))"
  "set (map rootEntry (buildOutputSplitGroups env pfs afps))
     = getRootEntry ` set afps \<union> (\<lambda>f. getRootEntry (path f)) ` set pfs"
  "\<forall>g \<in> set (buildOutputSplitGroups env pfs afps). g = groupFor (rootEntry g) afps pfs"
proof -
  obtain m where m: "groupsInv m afps pfs"
    "buildOutputSplitGroups env pfs afps = sortGroups (localeCompare env) (map snd m)"
    using build_groups by blast
  have v: "map snd m = map (\<lambda>k. groupFor k afps pfs) (map fst m)"
    by (rule groupsInv_values [OF m(1)])
  have keys: "map rootEntry (map snd m) = map fst m"
    unfolding v by (induction m) auto
  have "mset (map rootEntry (buildOutputSplitGroups env pfs afps)) = mset (map fst m)"
    unfolding m(2) using keys by (metis mset_map mset_sortGroups)
  moreover from m(1) have "distinct (map fst m)"
    "set (map fst m) = getRootEntry ` set afps \<union> (\<lambda>f. getRootEntry (path f)) ` set pfs"
    by (auto simp: groupsInv_def)
  ultimately show "distinct (map rootEntry (buildOutputSplitGroups env pfs afps))"
    "set (map rootEntry (buildOutputSplitGroups env pfs afps))
     = getRootEntry ` set afps \<union> (\<lambda>f. getRootEntry (path f)) ` set pfs"
    by (metis mset_eq_imp_distinct_iff, metis mset_eq_setD)
  show "\<forall>g \<in> set (buildOutputSplitGroups env pfs afps). g = groupFor (rootEntry g) afps pfs"
    unfolding m(2) set_sortGroups v by auto
qed









section \<open>The bin-packing of the token splitter\<close>

lemma packStep_cases:
  "packStep tokenMap budget st f =
     (if adjustedEstimate tokenMap f > budget
      then \<lparr>partFileData = partFileData st @ (if currentFiles st = [] then [] else [currentFiles st]) @ [[f]],
            currentFiles = [], currentTokens = (if currentFiles st = [] then currentTokens st else 0)\<rparr>
      else if currentTokens st + adjustedEstimate tokenMap f > budget
      then \<lparr>partFileData = partFileData st @ [currentFiles st],
            currentFiles = [f], currentTokens = adjustedEstimate tokenMap f\<rparr>
      else \<lparr>partFileData = partFileData st, currentFiles = currentFiles st @ [f],
            currentTokens = currentTokens st + adjustedEstimate tokenMap f\<rparr>)"
  by (cases st) (simp add: packStep_def adjustedEstimate_def overheadPerFile_def Let_def)

lemma packLoop_greedyPack:
  "(currentFiles st = [] \<longrightarrow> currentTokens st = 0) \<Longrightarrow>
   (let st' = foldl (packStep tokenMap budget) st fs
    in if length (currentFiles st') > 0 then partFileData st' @ [currentFiles st']
       else partFileData st')
   = partFileData st @
       greedyPack (adjustedEstimate tokenMap) budget fs (currentFiles st) (currentTokens st)"
proof (induction fs arbitrary: st)
  case Nil
  then show ?case by simp
next
  case (Cons f fs)
  let ?st = "packStep tokenMap budget st f"
  have inv: "currentFiles ?st = [] \<longrightarrow> currentTokens ?st = 0"
    using Cons.prems by (simp add: packStep_cases)
  have "partFileData ?st @
          greedyPack (adjustedEstimate tokenMap) budget fs (currentFiles ?st) (currentTokens ?st)
        = partFileData st @
          greedyPack (adjustedEstimate tokenMap) budget (f # fs) (currentFiles st) (currentTokens st)"
    using Cons.prems by (simp add: packStep_cases)
  with Cons.IH [OF inv] show ?case
    by (simp add: Let_def)
qed

lemma packFiles_greedyPack:
  "packFiles tokenMap budget pfs = greedyPack (adjustedEstimate tokenMap) budget pfs [] 0"
  unfolding packFiles_def
  using packLoop_greedyPack [of "\<lparr>partFileData = [], currentFiles = [], currentTokens = 0\<rparr>"]
  by simp

lemma greedyPack_cong:
  "(\<And>f. f \<in> set fs \<Longrightarrow> e1 f = e2 f) \<Longrightarrow>
   greedyPack e1 budget fs batch running = greedyPack e2 budget fs batch running"
  by (induction fs arbitrary: batch running) auto

lemma awaitAll_answers:
  "(\<And>x. x \<in> set xs \<Longrightarrow> g x = Inr (h x)) \<Longrightarrow>
   awaitAll (map (\<lambda>x. propagate (g x)) xs) = Inr (map h xs)"
  by (induction xs) auto

lemma newMap_own_count:
  assumes "distinct (map path pfs)" and "f \<in> set pfs"
  shows "newMap (zip (map path pfs) (map est pfs)) (path f) = Some (est f)"
proof -
  have z: "zip (map path pfs) (map est pfs) = map (\<lambda>f. (path f, est f)) pfs"
    by (induction pfs) auto
  have d: "distinct (map fst (rev (map (\<lambda>f. (path f, est f)) pfs)))"
    using assms(1) by (simp add: rev_map [symmetric] comp_def)
  have "(path f, est f) \<in> set (rev (map (\<lambda>f. (path f, est f)) pfs))"
    using assms(2) by auto
  with d show ?thesis
    unfolding newMap_def z by (rule map_of_is_SomeI)
qed

lemma pendingBatches_distinct:
  assumes d: "distinct (map path pfs)"
      and a: "\<forall>f \<in> set pfs. taskRunnerRun env (ProcessedFile.content f)
                 (encoding (RepomixConfigMerged.tokenCount baseConfig)) (path f) = Inr (est f)"
  shows "pendingBatches env baseConfig budget pfs
         = Inr (greedyPack (\<lambda>f. est f + 20) budget pfs [] 0)"
proof -
  let ?enc = "encoding (RepomixConfigMerged.tokenCount baseConfig)"
  have aw: "awaitAll (map (\<lambda>file. propagate
               (taskRunnerRun env (ProcessedFile.content file) ?enc (path file))) pfs)
            = Inr (map est pfs)"
    by (rule awaitAll_answers) (use a in blast)
  have "greedyPack (adjustedEstimate (newMap (zip (map path pfs) (map est pfs)))) budget pfs [] 0
        = greedyPack (\<lambda>f. est f + 20) budget pfs [] 0"
    by (rule greedyPack_cong) (simp add: adjustedEstimate_def newMap_own_count [OF d])
  then show ?thesis
    by (simp add: pendingBatches_def tokenBatches_def aw Let_def packFiles_greedyPack)
qed

section \<open>The verification loop of the token splitter\<close>

lemma tokenSplitLoop_parts:
  "tokenSplitLoop render metrics mkPath B bs i ps tr = (Inr out, tr') \<Longrightarrow>
   \<exists>new. out = ps @ new \<and>
     list_all2 (\<lambda>files p. fst (render (index p) files) = Inr (content p) \<and>
                  fst (metrics (content p)) = Inr (tokenCount p) \<and>
                  (length files = 1 \<longrightarrow> tokenCount p \<le> B)) bs new \<and>
     map index new = [i + 1 ..< i + 1 + length bs]"
proof (induction bs arbitrary: i ps tr)
  case Nil
  then show ?case by simp
next
  case (Cons b bs)
  obtain r ev where r: "render (i + 1) b = (r, ev)" by (cases "render (i + 1) b")
  from Cons.prems r obtain c where c: "r = Inr c"
    by (cases r) (auto simp: Let_def)
  obtain m ev' where m: "metrics c = (m, ev')" by (cases "metrics c")
  from Cons.prems r c m obtain n where n: "m = Inr n"
    by (cases m) (auto simp: Let_def)
  let ?p = "\<lparr>index = i + 1, filePath = mkPath (i + 1), content = c,
             byteLength = getUtf8ByteLength c, tokenCount = n, groups = None\<rparr>"
  from Cons.prems r c m n have ok: "\<not> (length b = 1 \<and> n > B)"
    and rec: "tokenSplitLoop render metrics mkPath B bs (i + 1) (ps @ [?p]) ((tr @ ev) @ ev') = (Inr out, tr')"
    by (auto simp: Let_def split: if_splits)
  from Cons.IH [OF rec] obtain new where new: "out = (ps @ [?p]) @ new"
    "list_all2 (\<lambda>files p. fst (render (index p) files) = Inr (content p) \<and>
                  fst (metrics (content p)) = Inr (tokenCount p) \<and>
                  (length files = 1 \<longrightarrow> tokenCount p \<le> B)) bs new"
    "map index new = [i + 1 + 1 ..< i + 1 + 1 + length bs]" by blast
  have "[i + 1 ..< i + 1 + length (b # bs)] = (i + 1) # [Suc (i + 1) ..< i + 1 + length (b # bs)]"
    by (rule upt_conv_Cons) simp
  then have "[i + 1 ..< i + 1 + length (b # bs)] = (i + 1) # [i + 1 + 1 ..< i + 1 + 1 + length bs]"
    by simp
  with new r c m n ok show ?case
    by (intro exI [of _ "?p # new"]) auto
qed

lemma all_less_Suc_shift: "(\<forall>j < Suc n. P j) \<longleftrightarrow> P 0 \<and> (\<forall>j < n. P (Suc j))"
  by (metis less_Suc_eq_0_disj Suc_less_eq zero_less_Suc)

lemma tokenSplitLoop_exceeds_iff:
  assumes cr: "\<And>k fs e. fst (render k fs) = Inl e \<Longrightarrow> \<exists>m. e = CollaboratorError m"
      and cm: "\<And>c e. fst (metrics c) = Inl e \<Longrightarrow> \<exists>m. e = CollaboratorError m"
  shows "(\<exists>tr'. tokenSplitLoop render metrics mkPath B bs i ps tr
            = (Inl (ExceedsMaxTokens p n limit), tr'))
     \<longleftrightarrow> (limit = B \<and> (\<exists>pre f post c. bs = pre @ [f] # post \<and> path f = p \<and>
            (\<forall>j < length pre. batchPasses (\<lambda>k fs. fst (render k fs)) (\<lambda>c. fst (metrics c)) B
                 (i + j + 1) (pre ! j)) \<and>
            fst (render (i + length pre + 1) [f]) = Inr c \<and> fst (metrics c) = Inr n \<and> n > B))"
proof (induction bs arbitrary: i ps tr)
  case Nil
  show ?case by simp
next
  case (Cons b bs)
  let ?R = "\<lambda>bs i. limit = B \<and> (\<exists>pre f post c. bs = pre @ [f] # post \<and> path f = p \<and>
            (\<forall>j < length pre. batchPasses (\<lambda>k fs. fst (render k fs)) (\<lambda>c. fst (metrics c)) B
                 (i + j + 1) (pre ! j)) \<and>
            fst (render (i + length pre + 1) [f]) = Inr c \<and> fst (metrics c) = Inr n \<and> n > B)"
  let ?pass = "batchPasses (\<lambda>k fs. fst (render k fs)) (\<lambda>c. fst (metrics c)) B (i + 1) b"
  let ?hit = "\<exists>c. b = [hd b] \<and> path (hd b) = p \<and> fst (render (i + 1) b) = Inr c \<and>
                fst (metrics c) = Inr n \<and> n > B"
  have split_R: "?R (b # bs) i \<longleftrightarrow> (limit = B \<and> ?hit) \<or> (?pass \<and> ?R bs (i + 1))"
  proof
    assume "?R (b # bs) i"
    then obtain pre f post c where h: "limit = B" "b # bs = pre @ [f] # post" "path f = p"
      "\<forall>j < length pre. batchPasses (\<lambda>k fs. fst (render k fs)) (\<lambda>c. fst (metrics c)) B
                 (i + j + 1) (pre ! j)"
      "fst (render (i + length pre + 1) [f]) = Inr c" "fst (metrics c) = Inr n" "n > B"
      by blast
    show "(limit = B \<and> ?hit) \<or> (?pass \<and> ?R bs (i + 1))"
    proof (cases pre)
      case Nil
      with h show ?thesis by auto
    next
      case (Cons b' pre')
      with h have "b' = b" "bs = pre' @ [f] # post" by auto
      moreover from h(4) Cons have "?pass"
        "\<forall>j < length pre'. batchPasses (\<lambda>k fs. fst (render k fs)) (\<lambda>c. fst (metrics c)) B
                 (i + 1 + j + 1) (pre' ! j)"
        using \<open>b' = b\<close> by (auto simp: all_less_Suc_shift)
      moreover from h(5) Cons have "fst (render (i + 1 + length pre' + 1) [f]) = Inr c" by simp
      ultimately show ?thesis using h by blast
    qed
  next
    assume "(limit = B \<and> ?hit) \<or> (?pass \<and> ?R bs (i + 1))"
    then show "?R (b # bs) i"
    proof
      assume a: "limit = B \<and> ?hit"
      then obtain c where "b = [hd b]" "path (hd b) = p" "fst (render (i + 1) b) = Inr c"
                "fst (metrics c) = Inr n" "n > B" by blast
      then have "b # bs = [] @ [hd b] # bs \<and> path (hd b) = p \<and>
            (\<forall>j < length ([]::ProcessedFile list list). batchPasses (\<lambda>k fs. fst (render k fs)) (\<lambda>c. fst (metrics c)) B
                 (i + j + 1) ([] ! j)) \<and>
            fst (render (i + length ([]::ProcessedFile list list) + 1) [hd b]) = Inr c \<and> fst (metrics c) = Inr n \<and> n > B"
        by simp
      with a show ?thesis by blast
    next
      assume a: "?pass \<and> ?R bs (i + 1)"
      then obtain pre f post c where h: "limit = B" "bs = pre @ [f] # post" "path f = p"
      "\<forall>j < length pre. batchPasses (\<lambda>k fs. fst (render k fs)) (\<lambda>c. fst (metrics c)) B
                 (i + 1 + j + 1) (pre ! j)"
      "fst (render (i + 1 + length pre + 1) [f]) = Inr c" "fst (metrics c) = Inr n" "n > B"
        by blast
      from a h(4) have "\<forall>j < length (b # pre). batchPasses (\<lambda>k fs. fst (render k fs)) (\<lambda>c. fst (metrics c)) B
                 (i + j + 1) ((b # pre) ! j)"
        by (simp add: all_less_Suc_shift)
      moreover have "b # bs = (b # pre) @ [f] # post" using h by simp
      moreover have "fst (render (i + length (b # pre) + 1) [f]) = Inr c" using h by simp
      ultimately show ?thesis using h by blast
    qed
  qed
  obtain r ev where r: "render (i + 1) b = (r, ev)" by (cases "render (i + 1) b")
  show ?case
  proof (cases r)
    case (Inl e)
    with cr [of "i + 1" b e] r obtain m where "e = CollaboratorError m" by auto
    with Inl r have "\<not> (\<exists>tr'. tokenSplitLoop render metrics mkPath B (b # bs) i ps tr
            = (Inl (ExceedsMaxTokens p n limit), tr'))"
      by (simp add: Let_def)
    moreover from Inl r have "\<not> ?pass" "\<not> ?hit" by (simp_all add: batchPasses_def)
    ultimately show ?thesis unfolding split_R by blast
  next
    case (Inr c)
    obtain m ev' where m: "metrics c = (m, ev')" by (cases "metrics c")
    show ?thesis
    proof (cases m)
      case (Inl e)
      with cm [of c e] m obtain msg where "e = CollaboratorError msg" by auto
      with Inl Inr r m have "\<not> (\<exists>tr'. tokenSplitLoop render metrics mkPath B (b # bs) i ps tr
            = (Inl (ExceedsMaxTokens p n limit), tr'))"
        by (simp add: Let_def)
      moreover from Inl Inr r m have "\<not> ?pass" "\<not> ?hit" by (simp_all add: batchPasses_def)
      ultimately show ?thesis unfolding split_R by blast
    next
      case n': (Inr n')
      show ?thesis
      proof (cases "length b = 1 \<and> n' > B")
        case True
        then have b: "b = [hd b]" by (cases b) auto
        then have b0: "b ! 0 = hd b" by (cases b) auto
        from True Inr r m n' have
          "tokenSplitLoop render metrics mkPath B (b # bs) i ps tr
            = (Inl (ExceedsMaxTokens (path (hd b)) n' B), (tr @ ev) @ ev')"
          by (simp add: Let_def b0)
        moreover from True Inr r m n' have "\<not> ?pass" by (simp add: batchPasses_def)
        moreover from True Inr r m n' b have "?hit \<longleftrightarrow> path (hd b) = p \<and> n = n'" by auto
        ultimately show ?thesis unfolding split_R by auto
      next
        case False
        let ?p = "\<lparr>index = i + 1, filePath = mkPath (i + 1), content = c,
             byteLength = getUtf8ByteLength c, tokenCount = n', groups = None\<rparr>"
        from False Inr r m n' have eqloop:
          "tokenSplitLoop render metrics mkPath B (b # bs) i ps tr
            = tokenSplitLoop render metrics mkPath B bs (i + 1) (ps @ [?p]) ((tr @ ev) @ ev')"
          by (auto simp: Let_def)
        from False Inr r m n' have pass: "?pass" by (simp add: batchPasses_def)
        from False Inr r m n' have nohit: "\<not> ?hit" by (cases b) auto
        have e2: "?R (b # bs) i \<longleftrightarrow> ?R bs (i + 1)"
          unfolding split_R using pass nohit by (simp only: simp_thms)
        show ?thesis
          unfolding e2 eqloop by (rule Cons.IH)
      qed
    qed
  qed
qed

lemma propagate_Inl: "propagate x = Inl e \<Longrightarrow> \<exists>m. e = CollaboratorError m"
  by (cases x) auto

lemma awaitAll_Inl: "awaitAll xs = Inl e \<Longrightarrow> Inl e \<in> set xs"
  by (induction xs rule: awaitAll.induct) (auto split: sum.splits)

lemma tokenBatches_Inl: "tokenBatches env enc B pfs = Inl e \<Longrightarrow> \<exists>m. e = CollaboratorError m"
  by (auto simp: tokenBatches_def Let_def split: sum.splits dest!: awaitAll_Inl propagate_Inl [OF sym])

lemma byTokens_unfold:
  "fst (generateSplitOutputPartsByTokens env rootDirs baseConfig pfs afps B d l deps) =
     (case pendingBatches env baseConfig B pfs of
        Inl e \<Rightarrow> Inl e
      | Inr batches \<Rightarrow>
          fst (tokenSplitLoop
            (\<lambda>k files. renderFiles files afps k rootDirs baseConfig d l (generateOutput deps)
                (Some \<lparr>partNumber = k, totalParts = length batches, totalFiles = length afps\<rparr>))
            (\<lambda>c. (propagate (calculateOutputMetrics env c (encoding (RepomixConfigMerged.tokenCount baseConfig))),
                   [CalculateOutputMetrics c (encoding (RepomixConfigMerged.tokenCount baseConfig))]))
            (buildSplitOutputFilePath env (OutputConfig.filePath (output baseConfig)))
            B batches 0 []
            ([ProgressCallback PreCalculating] @
                map (\<lambda>file. TaskRunnerRun (ProcessedFile.content file)
                   (encoding (RepomixConfigMerged.tokenCount baseConfig)) (path file)) pfs)))"
  by (auto simp: generateSplitOutputPartsByTokens_def tokenSplitTry_def pendingBatches_def Let_def
           split: prod.splits sum.splits)

lemma byTokens_batches_parts:
  assumes "fst (generateSplitOutputPartsByTokens env rootDirs baseConfig pfs afps budget
                  gitDiffResult gitLogResult deps) = Inr ps"
  shows "\<exists>batches. pendingBatches env baseConfig budget pfs = Inr batches \<and>
           list_all2 (\<lambda>files p.
              renderedPart rootDirs baseConfig afps gitDiffResult gitLogResult deps
                (length batches) (index p) files = Inr (content p) \<and>
              exactTokenCount env baseConfig (content p) = Inr (tokenCount p) \<and>
              (length files = 1 \<longrightarrow> tokenCount p \<le> budget)) batches ps"
proof -
  from assms obtain batches where b: "pendingBatches env baseConfig budget pfs = Inr batches"
    by (cases "pendingBatches env baseConfig budget pfs") (auto simp: byTokens_unfold)
  let ?render = "\<lambda>k files. renderFiles files afps k rootDirs baseConfig gitDiffResult gitLogResult
                (generateOutput deps)
                (Some \<lparr>partNumber = k, totalParts = length batches, totalFiles = length afps\<rparr>)"
  let ?metrics = "\<lambda>c. (propagate (calculateOutputMetrics env c (encoding (RepomixConfigMerged.tokenCount baseConfig))),
                   [CalculateOutputMetrics c (encoding (RepomixConfigMerged.tokenCount baseConfig))])"
  from assms b obtain tr tr0 where
    "tokenSplitLoop ?render ?metrics
       (buildSplitOutputFilePath env (OutputConfig.filePath (output baseConfig)))
       budget batches 0 [] tr0 = (Inr ps, tr)"
    unfolding byTokens_unfold by (auto simp: fst_def split: prod.splits)
  from tokenSplitLoop_parts [OF this] b show ?thesis
    by (auto simp: renderedPart_def exactTokenCount_def)
qed

text \<open>
  C4, as the code has it. In a token split that succeeds, the parts are the pending
  batches rendered in order, each with the exact token count of its document, and every
  part rendered from exactly one file has an exact count within the budget. A part
  rendered from several files is committed whatever its exact count.
\<close>

theorem byTokens_single_file_parts_within_budget:
  assumes "fst (generateSplitOutputPartsByTokens env rootDirs baseConfig pfs afps budget
                  gitDiffResult gitLogResult deps) = Inr ps"
  shows "\<exists>batches. pendingBatches env baseConfig budget pfs = Inr batches \<and>
           list_all2 (\<lambda>files p.
              renderedPart rootDirs baseConfig afps gitDiffResult gitLogResult deps
                (length batches) (index p) files = Inr (content p) \<and>
              exactTokenCount env baseConfig (content p) = Inr (tokenCount p) \<and>
              (length files = 1 \<longrightarrow> tokenCount p \<le> budget)) batches ps"
  using assms by (rule byTokens_batches_parts)

theorem byTokens_single_file_parts_within_budget_witness:
  "fst (generateSplitOutputPartsByTokens mockEnv [''/test''] mockConfig tokenTestFiles
          [''file1.ts'', ''file2.ts'', ''file3.ts''] 100 None None mockGenerateOutputPaths)
   = Inr [\<lparr>index = 1, filePath = ''repomix-output.1.xml'', content = ''file1.ts'',
           byteLength = 8, tokenCount = 60, groups = None\<rparr>,
          \<lparr>index = 2, filePath = ''repomix-output.2.xml'', content = ''file2.ts'',
           byteLength = 8, tokenCount = 60, groups = None\<rparr>,
          \<lparr>index = 3, filePath = ''repomix-output.3.xml'', content = ''file3.ts'',
           byteLength = 8, tokenCount = 60, groups = None\<rparr>] \<and>
   pendingBatches mockEnv mockConfig 100 tokenTestFiles
   = Inr [[\<lparr>path = ''file1.ts'', content = ''content1''\<rparr>],
          [\<lparr>path = ''file2.ts'', content = ''content2''\<rparr>],
          [\<lparr>path = ''file3.ts'', content = ''content3''\<rparr>]] \<and>
   exactTokenCount mockEnv mockConfig ''file1.ts'' = Inr 60 \<and>
   exactTokenCount mockEnv mockConfig ''file2.ts'' = Inr 60 \<and>
   exactTokenCount mockEnv mockConfig ''file3.ts'' = Inr 60 \<and>
   (60 :: nat) \<le> 100"
proof -
  have run: "fst (generateSplitOutputPartsByTokens mockEnv [''/test''] mockConfig tokenTestFiles
          [''file1.ts'', ''file2.ts'', ''file3.ts''] 100 None None mockGenerateOutputPaths)
   = Inr [\<lparr>index = 1, filePath = ''repomix-output.1.xml'', content = ''file1.ts'',
           byteLength = 8, tokenCount = 60, groups = None\<rparr>,
          \<lparr>index = 2, filePath = ''repomix-output.2.xml'', content = ''file2.ts'',
           byteLength = 8, tokenCount = 60, groups = None\<rparr>,
          \<lparr>index = 3, filePath = ''repomix-output.3.xml'', content = ''file3.ts'',
           byteLength = 8, tokenCount = 60, groups = None\<rparr>]"
    by code_simp
  have pb: "pendingBatches mockEnv mockConfig 100 tokenTestFiles
   = Inr [[\<lparr>path = ''file1.ts'', content = ''content1''\<rparr>],
          [\<lparr>path = ''file2.ts'', content = ''content2''\<rparr>],
          [\<lparr>path = ''file3.ts'', content = ''content3''\<rparr>]]"
    by code_simp
  from run pb byTokens_single_file_parts_within_budget [OF run] show ?thesis
    by simp
qed

text \<open>
  C4 as stated fails: two files estimated at 10 tokens each are packed into one batch
  (30 + 30 within 100), and the part rendered from them is committed although its exact
  count, 200, is over the budget of 100.
\<close>

theorem byTokens_multi_file_part_over_budget:
  "fst (generateSplitOutputParts (mockEnvWith 10 200) [''/test''] mockConfig
          [\<lparr>path = ''file1.ts'', content = ''content1''\<rparr>,
           \<lparr>path = ''file2.ts'', content = ''content2''\<rparr>]
          [''file1.ts'', ''file2.ts''] None (Some (Finite 100)) None None
          mockGenerateOutputPaths)
   = Inr [\<lparr>index = 1, filePath = ''repomix-output.1.xml'', content = ''file1.ts,file2.ts'',
           byteLength = 17, tokenCount = 200, groups = None\<rparr>] \<and>
   exactTokenCount (mockEnvWith 10 200) mockConfig ''file1.ts,file2.ts'' = Inr 200 \<and>
   \<not> (200 :: nat) \<le> 100"
  by code_simp

text \<open>
  C5. The token split fails with the error that names a file path, the measured count
  and the limit exactly when the limit is the budget and some pending batch consists
  of that one file, every batch before it passed the verification, and its own
  rendering has the measured exact count, which is over the budget. The result is
  then the error alone, and the batch that triggers it has one file.
\<close>

theorem byTokens_exceeds_iff:
  "(\<exists>tr. generateSplitOutputPartsByTokens env rootDirs baseConfig pfs afps budget
            gitDiffResult gitLogResult deps = (Inl (ExceedsMaxTokens p n limit), tr))
   \<longleftrightarrow>
   (limit = budget \<and>
    (\<exists>batches pre f post c.
        pendingBatches env baseConfig budget pfs = Inr batches \<and>
        batches = pre @ [f] # post \<and> path f = p \<and>
        (\<forall>j < length pre.
            batchPasses
              (renderedPart rootDirs baseConfig afps gitDiffResult gitLogResult deps (length batches))
              (exactTokenCount env baseConfig) budget (j + 1) (pre ! j)) \<and>
        renderedPart rootDirs baseConfig afps gitDiffResult gitLogResult deps (length batches)
          (length pre + 1) [f] = Inr c \<and>
        exactTokenCount env baseConfig c = Inr n \<and> n > budget))"
proof (cases "pendingBatches env baseConfig budget pfs")
  case (Inl e)
  then obtain m where "e = CollaboratorError m"
    using tokenBatches_Inl [of env "encoding (RepomixConfigMerged.tokenCount baseConfig)" budget pfs e]
    by (auto simp: pendingBatches_def)
  with Inl have "fst (generateSplitOutputPartsByTokens env rootDirs baseConfig pfs afps budget
            gitDiffResult gitLogResult deps) = Inl (CollaboratorError m)"
    by (simp add: byTokens_unfold)
  with Inl show ?thesis by auto
next
  case (Inr batches)
  let ?render = "\<lambda>k files. renderFiles files afps k rootDirs baseConfig gitDiffResult gitLogResult
                (generateOutput deps)
                (Some \<lparr>partNumber = k, totalParts = length batches, totalFiles = length afps\<rparr>)"
  let ?metrics = "\<lambda>c. (propagate (calculateOutputMetrics env c (encoding (RepomixConfigMerged.tokenCount baseConfig))),
                   [CalculateOutputMetrics c (encoding (RepomixConfigMerged.tokenCount baseConfig))])"
  let ?tr0 = "[ProgressCallback PreCalculating] @
                map (\<lambda>file. TaskRunnerRun (ProcessedFile.content file)
                   (encoding (RepomixConfigMerged.tokenCount baseConfig)) (path file)) pfs"
  let ?mk = "buildSplitOutputFilePath env (OutputConfig.filePath (output baseConfig))"
  let ?body = "\<lambda>bs pre f post c. bs = pre @ [f] # post \<and> path f = p \<and>
        (\<forall>j < length pre.
            batchPasses
              (renderedPart rootDirs baseConfig afps gitDiffResult gitLogResult deps (length bs))
              (exactTokenCount env baseConfig) budget (j + 1) (pre ! j)) \<and>
        renderedPart rootDirs baseConfig afps gitDiffResult gitLogResult deps (length bs)
          (length pre + 1) [f] = Inr c \<and>
        exactTokenCount env baseConfig c = Inr n \<and> n > budget"
  have cr: "\<And>k fs e. fst (?render k fs) = Inl e \<Longrightarrow> \<exists>m. e = CollaboratorError m"
    by (auto simp: renderFiles_def Let_def dest: propagate_Inl)
  have cm: "\<And>c e. fst (?metrics c) = Inl e \<Longrightarrow> \<exists>m. e = CollaboratorError m"
    by (auto dest: propagate_Inl)
  have "(\<exists>tr. generateSplitOutputPartsByTokens env rootDirs baseConfig pfs afps budget
            gitDiffResult gitLogResult deps = (Inl (ExceedsMaxTokens p n limit), tr))
      \<longleftrightarrow> (\<exists>tr. tokenSplitLoop ?render ?metrics ?mk budget batches 0 [] ?tr0
            = (Inl (ExceedsMaxTokens p n limit), tr))"
    using Inr
    by (auto simp: generateSplitOutputPartsByTokens_def tokenSplitTry_def pendingBatches_def Let_def
           split: prod.splits)
  also have "\<dots> \<longleftrightarrow> (limit = budget \<and> (\<exists>pre f post c. ?body batches pre f post c))"
  proof -
    have f1: "(\<lambda>k fs. fst (?render k fs))
                = renderedPart rootDirs baseConfig afps gitDiffResult gitLogResult deps (length batches)"
      by (intro ext) (simp add: renderedPart_def)
    have f2: "(\<lambda>c. fst (?metrics c)) = exactTokenCount env baseConfig"
      by (intro ext) (simp add: exactTokenCount_def)
    have f3: "\<And>k fs. fst (?render k fs)
                = renderedPart rootDirs baseConfig afps gitDiffResult gitLogResult deps (length batches) k fs"
      by (simp add: renderedPart_def)
    have f4: "\<And>c. fst (?metrics c) = exactTokenCount env baseConfig c"
      by (simp add: exactTokenCount_def)
    show ?thesis
      using tokenSplitLoop_exceeds_iff [where render = ?render and metrics = ?metrics
         and mkPath = ?mk and B = budget and bs = batches and i = 0 and ps = "[]" and tr = ?tr0
         and p = p and n = n and limit = limit, OF cr cm]
      unfolding f1 f2 unfolding f3 f4 by (simp only: add_0)
  qed
  also have "\<dots> \<longleftrightarrow> (limit = budget \<and>
      (\<exists>batches' pre f post c. pendingBatches env baseConfig budget pfs = Inr batches' \<and>
           ?body batches' pre f post c))"
  proof -
    have ex: "\<And>P. (\<exists>pre f post c. P batches pre f post c) \<longleftrightarrow>
       (\<exists>batches' pre f post c. pendingBatches env baseConfig budget pfs = Inr batches' \<and>
           P batches' pre f post c)"
      using Inr by auto
    show ?thesis
      by (rule arg_cong [where f = "(\<and>) (limit = budget)", OF ex [of ?body]])
  qed
  finally show ?thesis .
qed

theorem byTokens_exceeds_iff_witness:
  "pendingBatches (mockEnvWith 150 200) mockConfig 100
     [\<lparr>path = ''large.ts'', content = ''large content''\<rparr>]
   = Inr [[\<lparr>path = ''large.ts'', content = ''large content''\<rparr>]] \<and>
   renderedPart [''/test''] mockConfig [''large.ts''] None None mockGenerateOutputPaths 1 1
     [\<lparr>path = ''large.ts'', content = ''large content''\<rparr>] = Inr ''large.ts'' \<and>
   exactTokenCount (mockEnvWith 150 200) mockConfig ''large.ts'' = Inr 200 \<and>
   (200 :: nat) > 100 \<and>
   (\<exists>tr. generateSplitOutputPartsByTokens (mockEnvWith 150 200) [''/test''] mockConfig
            [\<lparr>path = ''large.ts'', content = ''large content''\<rparr>] [''large.ts''] 100 None None
            mockGenerateOutputPaths = (Inl (ExceedsMaxTokens ''large.ts'' 200 100), tr))"
proof -
  let ?f = "\<lparr>path = ''large.ts'', content = ''large content''\<rparr>"
  have pb: "pendingBatches (mockEnvWith 150 200) mockConfig 100 [?f] = Inr [[?f]]"
    by code_simp
  have r: "renderedPart [''/test''] mockConfig [''large.ts''] None None mockGenerateOutputPaths 1 1
     [?f] = Inr ''large.ts''"
    by code_simp
  have c: "exactTokenCount (mockEnvWith 150 200) mockConfig ''large.ts'' = Inr 200"
    by code_simp
  have "\<exists>batches pre f post c.
        pendingBatches (mockEnvWith 150 200) mockConfig 100 [?f] = Inr batches \<and>
        batches = pre @ [f] # post \<and> path f = ''large.ts'' \<and>
        (\<forall>j < length pre.
            batchPasses
              (renderedPart [''/test''] mockConfig [''large.ts''] None None mockGenerateOutputPaths
                 (length batches))
              (exactTokenCount (mockEnvWith 150 200) mockConfig) 100 (j + 1) (pre ! j)) \<and>
        renderedPart [''/test''] mockConfig [''large.ts''] None None mockGenerateOutputPaths
          (length batches) (length pre + 1) [f] = Inr c \<and>
        exactTokenCount (mockEnvWith 150 200) mockConfig c = Inr 200 \<and> 200 > (100 :: nat)"
    using pb r c
    by (intro exI [of _ "[[?f]]"] exI [of _ "[]"] exI [of _ ?f] exI [of _ "''large.ts''"]) simp
  then have "\<exists>tr. generateSplitOutputPartsByTokens (mockEnvWith 150 200) [''/test''] mockConfig
            [?f] [''large.ts''] 100 None None
            mockGenerateOutputPaths = (Inl (ExceedsMaxTokens ''large.ts'' 200 100), tr)"
    using byTokens_exceeds_iff [where env = "mockEnvWith 150 200" and rootDirs = "[''/test'']"
        and baseConfig = mockConfig and pfs = "[?f]" and afps = "[''large.ts'']" and budget = 100
        and gitDiffResult = None and gitLogResult = None and deps = mockGenerateOutputPaths
        and p = "''large.ts''" and n = 200 and limit = 100]
    by blast
  with pb r c show ?thesis by simp
qed

section \<open>The pending batches of a token split\<close>

text \<open>
  C6. For selected files of distinct paths whose counting tasks answer, the pending
  batches of the token split are the greedy packing of the specification, run over the
  files in their original order with each file's count plus the overhead of 20, from an
  empty batch: an estimate over the budget flushes a non-empty current batch and puts
  the file alone in a pending part (no failure at this point), an estimate that would
  push the running total over the budget flushes the current batch and starts a new
  one, any other file joins the current batch, and a non-empty trailing batch is
  flushed; the parts of a split that succeeds are the renderings of these batches, in
  order. In particular three files counted at 60 (estimate 80) under a budget of 100
  give three single-file batches.
\<close>

theorem pendingBatches_greedy:
  "(distinct (map path pfs) \<and>
    (\<forall>f \<in> set pfs. taskRunnerRun env (ProcessedFile.content f)
                 (encoding (RepomixConfigMerged.tokenCount baseConfig)) (path f) = Inr (est f))
    \<longrightarrow>
      pendingBatches env baseConfig budget pfs
        = Inr (greedyPack (\<lambda>f. est f + 20) budget pfs [] 0)
      \<and> (fst (generateSplitOutputPartsByTokens env rootDirs baseConfig pfs afps budget
                 gitDiffResult gitLogResult deps) = Inr ps \<longrightarrow>
           list_all2 (\<lambda>files p.
               renderedPart rootDirs baseConfig afps gitDiffResult gitLogResult deps
                 (length (greedyPack (\<lambda>f. est f + 20) budget pfs [] 0)) (index p) files
               = Inr (content p))
             (greedyPack (\<lambda>f. est f + 20) budget pfs [] 0) ps))
   \<and> (distinct [path fa, path fb, path fc] \<and>
       taskRunnerRun env (ProcessedFile.content fa)
         (encoding (RepomixConfigMerged.tokenCount baseConfig)) (path fa) = Inr 60 \<and>
       taskRunnerRun env (ProcessedFile.content fb)
         (encoding (RepomixConfigMerged.tokenCount baseConfig)) (path fb) = Inr 60 \<and>
       taskRunnerRun env (ProcessedFile.content fc)
         (encoding (RepomixConfigMerged.tokenCount baseConfig)) (path fc) = Inr 60
       \<longrightarrow> pendingBatches env baseConfig 100 [fa, fb, fc] = Inr [[fa], [fb], [fc]])"
proof (intro conjI impI)
  assume h: "distinct (map path pfs) \<and>
    (\<forall>f \<in> set pfs. taskRunnerRun env (ProcessedFile.content f)
                 (encoding (RepomixConfigMerged.tokenCount baseConfig)) (path f) = Inr (est f))"
  then show pb: "pendingBatches env baseConfig budget pfs
        = Inr (greedyPack (\<lambda>f. est f + 20) budget pfs [] 0)"
    using pendingBatches_distinct by blast
  assume a: "fst (generateSplitOutputPartsByTokens env rootDirs baseConfig pfs afps budget
                 gitDiffResult gitLogResult deps) = Inr ps"
  from byTokens_batches_parts [OF a] pb
  have "list_all2 (\<lambda>files p.
              renderedPart rootDirs baseConfig afps gitDiffResult gitLogResult deps
                (length (greedyPack (\<lambda>f. est f + 20) budget pfs [] 0)) (index p) files
                = Inr (content p) \<and>
              exactTokenCount env baseConfig (content p) = Inr (tokenCount p) \<and>
              (length files = 1 \<longrightarrow> tokenCount p \<le> budget))
          (greedyPack (\<lambda>f. est f + 20) budget pfs [] 0) ps"
    by auto
  then show "list_all2 (\<lambda>files p.
               renderedPart rootDirs baseConfig afps gitDiffResult gitLogResult deps
                 (length (greedyPack (\<lambda>f. est f + 20) budget pfs [] 0)) (index p) files
               = Inr (content p))
             (greedyPack (\<lambda>f. est f + 20) budget pfs [] 0) ps"
    by (rule list_all2_mono) simp
next
  assume h: "distinct [path fa, path fb, path fc] \<and>
       taskRunnerRun env (ProcessedFile.content fa)
         (encoding (RepomixConfigMerged.tokenCount baseConfig)) (path fa) = Inr 60 \<and>
       taskRunnerRun env (ProcessedFile.content fb)
         (encoding (RepomixConfigMerged.tokenCount baseConfig)) (path fb) = Inr 60 \<and>
       taskRunnerRun env (ProcessedFile.content fc)
         (encoding (RepomixConfigMerged.tokenCount baseConfig)) (path fc) = Inr 60"
  have "pendingBatches env baseConfig 100 [fa, fb, fc]
        = Inr (greedyPack (\<lambda>f. (\<lambda>_. 60) f + 20) 100 [fa, fb, fc] [] 0)"
    by (rule pendingBatches_distinct) (use h in auto)
  then show "pendingBatches env baseConfig 100 [fa, fb, fc] = Inr [[fa], [fb], [fc]]"
    by simp
qed

theorem pendingBatches_greedy_witness:
  "distinct (map path packTestFiles) \<and>
   pendingBatches mockEnvLength mockConfig 100 packTestFiles
   = Inr [[\<lparr>path = ''a.ts'', content = replicate 10 CHR ''a''\<rparr>,
           \<lparr>path = ''b.ts'', content = replicate 20 CHR ''b''\<rparr>],
          [\<lparr>path = ''c.ts'', content = replicate 30 CHR ''c''\<rparr>],
          [\<lparr>path = ''d.ts'', content = replicate 90 CHR ''d''\<rparr>],
          [\<lparr>path = ''e.ts'', content = replicate 5 CHR ''e''\<rparr>]] \<and>
   fst (generateSplitOutputPartsByTokens mockEnvLength [''/test''] mockConfig packTestFiles
          [''a.ts'', ''b.ts'', ''c.ts'', ''d.ts'', ''e.ts''] 100 None None mockGenerateOutputPaths)
   = Inr [\<lparr>index = 1, filePath = ''repomix-output.1.xml'', content = ''a.ts,b.ts'',
           byteLength = 9, tokenCount = 9, groups = None\<rparr>,
          \<lparr>index = 2, filePath = ''repomix-output.2.xml'', content = ''c.ts'',
           byteLength = 4, tokenCount = 4, groups = None\<rparr>,
          \<lparr>index = 3, filePath = ''repomix-output.3.xml'', content = ''d.ts'',
           byteLength = 4, tokenCount = 4, groups = None\<rparr>,
          \<lparr>index = 4, filePath = ''repomix-output.4.xml'', content = ''e.ts'',
           byteLength = 4, tokenCount = 4, groups = None\<rparr>] \<and>
   pendingBatches mockEnv mockConfig 100 tokenTestFiles
   = Inr [[\<lparr>path = ''file1.ts'', content = ''content1''\<rparr>],
          [\<lparr>path = ''file2.ts'', content = ''content2''\<rparr>],
          [\<lparr>path = ''file3.ts'', content = ''content3''\<rparr>]]"
proof -
  have d: "distinct (map path packTestFiles)"
    by (simp add: packTestFiles_def)
  have a: "\<forall>f \<in> set packTestFiles.
             taskRunnerRun mockEnvLength (ProcessedFile.content f)
               (encoding (RepomixConfigMerged.tokenCount mockConfig)) (path f)
             = Inr (length (ProcessedFile.content f))"
    by (simp add: mockEnvLength_def)
  have gp: "greedyPack (\<lambda>f. length (ProcessedFile.content f) + 20) 100 packTestFiles [] 0
   = [[\<lparr>path = ''a.ts'', content = replicate 10 CHR ''a''\<rparr>,
           \<lparr>path = ''b.ts'', content = replicate 20 CHR ''b''\<rparr>],
          [\<lparr>path = ''c.ts'', content = replicate 30 CHR ''c''\<rparr>],
          [\<lparr>path = ''d.ts'', content = replicate 90 CHR ''d''\<rparr>],
          [\<lparr>path = ''e.ts'', content = replicate 5 CHR ''e''\<rparr>]]"
    by code_simp
  have run: "fst (generateSplitOutputPartsByTokens mockEnvLength [''/test''] mockConfig packTestFiles
          [''a.ts'', ''b.ts'', ''c.ts'', ''d.ts'', ''e.ts''] 100 None None mockGenerateOutputPaths)
   = Inr [\<lparr>index = 1, filePath = ''repomix-output.1.xml'', content = ''a.ts,b.ts'',
           byteLength = 9, tokenCount = 9, groups = None\<rparr>,
          \<lparr>index = 2, filePath = ''repomix-output.2.xml'', content = ''c.ts'',
           byteLength = 4, tokenCount = 4, groups = None\<rparr>,
          \<lparr>index = 3, filePath = ''repomix-output.3.xml'', content = ''d.ts'',
           byteLength = 4, tokenCount = 4, groups = None\<rparr>,
          \<lparr>index = 4, filePath = ''repomix-output.4.xml'', content = ''e.ts'',
           byteLength = 4, tokenCount = 4, groups = None\<rparr>]"
    by code_simp
  from d a pendingBatches_greedy [where env = mockEnvLength and baseConfig = mockConfig
      and pfs = packTestFiles and est = "\<lambda>f. length (ProcessedFile.content f)" and budget = 100]
  have pb: "pendingBatches mockEnvLength mockConfig 100 packTestFiles
        = Inr (greedyPack (\<lambda>f. length (ProcessedFile.content f) + 20) 100 packTestFiles [] 0)"
    by blast
  have three: "distinct [path \<lparr>path = ''file1.ts'', content = ''content1''\<rparr>,
                  path \<lparr>path = ''file2.ts'', content = ''content2''\<rparr>,
                  path \<lparr>path = ''file3.ts'', content = ''content3''\<rparr>]"
    by simp
  have t: "\<And>c p. taskRunnerRun mockEnv c (encoding (RepomixConfigMerged.tokenCount mockConfig)) p
             = Inr 60"
    by (simp add: mockEnv_def mockEnvWith_def)
  from three t pendingBatches_greedy [where env = mockEnv and baseConfig = mockConfig
      and fa = "\<lparr>path = ''file1.ts'', content = ''content1''\<rparr>"
      and fb = "\<lparr>path = ''file2.ts'', content = ''content2''\<rparr>"
      and fc = "\<lparr>path = ''file3.ts'', content = ''content3''\<rparr>"]
  have sc: "pendingBatches mockEnv mockConfig 100
              [\<lparr>path = ''file1.ts'', content = ''content1''\<rparr>,
               \<lparr>path = ''file2.ts'', content = ''content2''\<rparr>,
               \<lparr>path = ''file3.ts'', content = ''content3''\<rparr>]
            = Inr [[\<lparr>path = ''file1.ts'', content = ''content1''\<rparr>],
          [\<lparr>path = ''file2.ts'', content = ''content2''\<rparr>],
          [\<lparr>path = ''file3.ts'', content = ''content3''\<rparr>]]"
    by blast
  from d pb [unfolded gp] run sc show ?thesis
    by (simp add: tokenTestFiles_def)
qed

section \<open>The byte splitter\<close>

lemma byteSplitStep_fst:
  "fst (byteSplitStep render pc mkPath B g st tr) =
     (case fst (render (length (parts st) + 1) (concat (map processedFiles (currentGroups st @ [g])))) of
        Inl e \<Rightarrow> Inl e
      | Inr t \<Rightarrow>
          if getUtf8ByteLength t \<le> B
          then Inr (st\<lparr>currentGroups := currentGroups st @ [g], currentContent := t,
                       currentBytes := getUtf8ByteLength t\<rparr>)
          else if currentGroups st = []
          then Inl (ExceedsMaxSize (rootEntry g) (getUtf8ByteLength t) B)
          else (case fst (render (length (parts st) + 2) (processedFiles g)) of
                  Inl e \<Rightarrow> Inl e
                | Inr s \<Rightarrow>
                    if getUtf8ByteLength s > B
                    then Inl (ExceedsMaxSize (rootEntry g) (getUtf8ByteLength s) B)
                    else Inr \<lparr>parts = parts st @
                                 [\<lparr>index = length (parts st) + 1, filePath = mkPath (length (parts st) + 1),
                                   content = currentContent st, byteLength = currentBytes st,
                                   tokenCount = 0, groups = Some (currentGroups st)\<rparr>],
                              currentGroups = [g], currentContent = s,
                              currentBytes = getUtf8ByteLength s\<rparr>))"
proof -
  obtain r ev where r:
    "render (length (parts st) + 1) (concat (map processedFiles (currentGroups st @ [g]))) = (r, ev)"
    by (cases "render (length (parts st) + 1) (concat (map processedFiles (currentGroups st @ [g])))")
  obtain r2 ev2 where r2: "render (length (parts st) + 2) (processedFiles g) = (r2, ev2)"
    by (cases "render (length (parts st) + 2) (processedFiles g)")
  show ?thesis
    using r r2 by (cases r; cases r2) (simp_all add: byteSplitStep_def Let_def)
qed

lemma bytePart_tuple:
  "bytePart mkPath (k, gs, doc) =
     \<lparr>index = k, filePath = mkPath k, content = doc, byteLength = getUtf8ByteLength doc,
      tokenCount = 0, groups = Some gs\<rparr>"
  by (simp add: bytePart_def)

lemma byteSplitLoop_fst_Cons:
  "fst (byteSplitLoop render pc mkPath B (g # gs) st tr) =
     (case fst (byteSplitStep render pc mkPath B g st tr) of
        Inl e \<Rightarrow> Inl e
      | Inr st' \<Rightarrow> fst (byteSplitLoop render pc mkPath B gs st'
                         (snd (byteSplitStep render pc mkPath B g st tr))))"
  by (simp split: prod.splits sum.splits)

lemma enumerate_snoc: "enumerate n (xs @ [x]) = enumerate n xs @ [(n + length xs, x)]"
  by (simp add: enumerate_append_eq)

lemma byteSplitLoop_refines:
  assumes "parts st = map (bytePart mkPath) (enumerate 1 fin)"
      and "currentBytes st = getUtf8ByteLength (currentContent st)"
  shows "finishResult mkPath (fst (byteSplitLoop render pc mkPath B gs st tr)) =
         specParts mkPath
           (byteSplitSpec (\<lambda>k gs. fst (render k (concat (map processedFiles gs)))) B gs fin
              (currentGroups st) (currentContent st))"
  using assms
proof (induction gs arbitrary: st tr fin)
  case Nil
  then show ?case
    by (simp add: finishResult_def specParts_def byteSplitFinish_def enumerate_snoc bytePart_tuple)
next
  case (Cons g gs)
  have len: "length (parts st) = length fin" using Cons.prems by simp
  let ?trial = "\<lambda>k gs. fst (render k (concat (map processedFiles gs)))"
  show ?case
  proof (cases "?trial (length fin + 1) (currentGroups st @ [g])")
    case (Inl e)
    then show ?thesis
      by (simp del: byteSplitLoop.simps add: byteSplitLoop_fst_Cons byteSplitStep_fst len finishResult_def specParts_def)
  next
    case (Inr t)
    show ?thesis
    proof (cases "getUtf8ByteLength t \<le> B")
      case True
      let ?st = "st\<lparr>currentGroups := currentGroups st @ [g], currentContent := t,
                       currentBytes := getUtf8ByteLength t\<rparr>"
      have "parts ?st = map (bytePart mkPath) (enumerate 1 fin)"
           "currentBytes ?st = getUtf8ByteLength (currentContent ?st)"
        using Cons.prems by simp_all
      from Cons.IH [OF this] Inr True show ?thesis
        by (simp del: byteSplitLoop.simps add: byteSplitLoop_fst_Cons byteSplitStep_fst len)
    next
      case False
      show ?thesis
      proof (cases "currentGroups st = []")
        case True
        with Inr False show ?thesis
          by (simp del: byteSplitLoop.simps add: byteSplitLoop_fst_Cons byteSplitStep_fst len finishResult_def specParts_def)
      next
        case ne: False
        show ?thesis
        proof (cases "?trial (length fin + 2) [g]")
          case (Inl e)
          with Inr False ne show ?thesis
            by (simp del: byteSplitLoop.simps add: byteSplitLoop_fst_Cons byteSplitStep_fst len finishResult_def specParts_def)
        next
          case s: (Inr s)
          show ?thesis
          proof (cases "getUtf8ByteLength s > B")
            case True
            with Inr False ne s show ?thesis
              by (simp del: byteSplitLoop.simps add: byteSplitLoop_fst_Cons byteSplitStep_fst len finishResult_def specParts_def)
          next
            case fits: False
            let ?st = "\<lparr>parts = parts st @
                                 [\<lparr>index = length (parts st) + 1, filePath = mkPath (length (parts st) + 1),
                                   content = currentContent st, byteLength = currentBytes st,
                                   tokenCount = 0, groups = Some (currentGroups st)\<rparr>],
                              currentGroups = [g], currentContent = s,
                              currentBytes = getUtf8ByteLength s\<rparr>"
            have "parts ?st = map (bytePart mkPath) (enumerate 1 (fin @ [(currentGroups st, currentContent st)]))"
                 "currentBytes ?st = getUtf8ByteLength (currentContent ?st)"
              using Cons.prems by (simp_all add: enumerate_snoc bytePart_tuple)
            from Cons.IH [OF this] Inr False ne s fits show ?thesis
              by (simp del: byteSplitLoop.simps add: byteSplitLoop_fst_Cons byteSplitStep_fst len)
          qed
        qed
      qed
    qed
  qed
qed

lemma byteSplitSpec_groups:
  "byteSplitSpec trial B gs fin acc doc = Inr res \<Longrightarrow>
   concat (map fst res) = concat (map fst fin) @ acc @ gs"
  by (induction gs arbitrary: fin acc doc) (auto split: sum.splits if_splits)

lemma byteSplitSpec_budget:
  "byteSplitSpec trial B gs fin acc doc = Inr res \<Longrightarrow>
   \<forall>x \<in> set fin. getUtf8ByteLength (snd x) \<le> B \<Longrightarrow>
   acc \<noteq> [] \<longrightarrow> getUtf8ByteLength doc \<le> B \<Longrightarrow>
   \<forall>x \<in> set res. getUtf8ByteLength (snd x) \<le> B"
proof (induction gs arbitrary: fin acc doc)
  case Nil
  then show ?case by (auto split: if_splits)
next
  case (Cons g gs)
  then show ?case
    by (fastforce split: sum.splits if_splits)
qed

lemma byBytes_spec:
  "fst (generateSplitOutputPartsByBytes env rootDirs baseConfig pfs afps budget d l deps) =
     specParts (buildSplitOutputFilePath env (OutputConfig.filePath (output baseConfig)))
       (byteSplitSpec (byteTrial env rootDirs baseConfig pfs afps d l deps) budget
          (buildOutputSplitGroups env pfs afps) [] [] [])"
proof (cases "buildOutputSplitGroups env pfs afps = []")
  case True
  then show ?thesis
    by (simp add: generateSplitOutputPartsByBytes_def specParts_def)
next
  case False
  let ?mk = "buildSplitOutputFilePath env (OutputConfig.filePath (output baseConfig))"
  let ?gs = "buildOutputSplitGroups env pfs afps"
  let ?render = "\<lambda>partIndex files.
                   renderFiles files afps partIndex rootDirs baseConfig d l
                     (generateOutput deps)
                     (Some \<lparr>partNumber = partIndex, totalParts = length ?gs,
                            totalFiles = length afps\<rparr>)"
  let ?st0 = "\<lparr>parts = [], currentGroups = [], currentContent = [], currentBytes = 0\<rparr>"
  have tr: "(\<lambda>k gs. fst (?render k (concat (map processedFiles gs))))
              = byteTrial env rootDirs baseConfig pfs afps d l deps"
    by (intro ext) (simp add: byteTrial_def renderedPart_def)
  have "fst (generateSplitOutputPartsByBytes env rootDirs baseConfig pfs afps budget d l deps)
        = finishResult ?mk (fst (byteSplitLoop ?render ProgressCallback ?mk budget ?gs ?st0 []))"
    using False
    by (simp add: generateSplitOutputPartsByBytes_def Let_def finishResult_def
             split: prod.splits sum.splits)
  also have "\<dots> = specParts ?mk
       (byteSplitSpec (\<lambda>k gs. fst (?render k (concat (map processedFiles gs)))) budget ?gs []
          (currentGroups ?st0) (currentContent ?st0))"
    by (rule byteSplitLoop_refines) (simp_all add: getUtf8ByteLength_def)
  finally show ?thesis
    unfolding tr by simp
qed

text \<open>
  C2. The byte splitter computes what the specification's algorithm computes on the
  groups in their order: a trial of the accumulator extended by the next group that is
  within the budget is accepted; one that exceeds it closes a non-empty accumulator as
  a finished part and tries the group alone; a group that exceeds the budget alone (as
  the first group, or after such a close) fails with the error carrying the root entry,
  the measured size and the limit, and no part; after the last group a non-empty
  accumulator is closed as the final part. The parts returned are the finished parts
  numbered from 1, each with its groups, its document and the length of the document.
\<close>

theorem byBytes_follows_spec:
  "fst (generateSplitOutputPartsByBytes env rootDirs baseConfig pfs afps budget
          gitDiffResult gitLogResult deps) =
     (case byteSplitSpec (byteTrial env rootDirs baseConfig pfs afps gitDiffResult gitLogResult deps)
             budget (buildOutputSplitGroups env pfs afps) [] [] [] of
        Inl e \<Rightarrow> Inl e
      | Inr finished \<Rightarrow>
          Inr (map (bytePart (buildSplitOutputFilePath env (OutputConfig.filePath (output baseConfig))))
                 (enumerate 1 finished)))"
  by (simp add: byBytes_spec specParts_def)

theorem byBytes_follows_spec_witness:
  "byteSplitSpec
     (byteTrial mockEnv [''/test''] mockConfig threeRootFiles
        [''a/one.ts'', ''b/two.ts'', ''c/three.ts''] None None mockGenerateOutputFifty)
     120 (buildOutputSplitGroups mockEnv threeRootFiles [''a/one.ts'', ''b/two.ts'', ''c/three.ts''])
     [] [] []
   = Inr [([\<lparr>rootEntry = ''a'', processedFiles = [\<lparr>path = ''a/one.ts'', content = ''one''\<rparr>],
             allFilePaths = [''a/one.ts'']\<rparr>,
            \<lparr>rootEntry = ''b'', processedFiles = [\<lparr>path = ''b/two.ts'', content = ''two''\<rparr>],
             allFilePaths = [''b/two.ts'']\<rparr>], replicate 100 CHR ''x''),
          ([\<lparr>rootEntry = ''c'', processedFiles = [\<lparr>path = ''c/three.ts'', content = ''three''\<rparr>],
             allFilePaths = [''c/three.ts'']\<rparr>], replicate 50 CHR ''x'')] \<and>
   fst (generateSplitOutputPartsByBytes mockEnv [''/test''] mockConfig threeRootFiles
          [''a/one.ts'', ''b/two.ts'', ''c/three.ts''] 120 None None mockGenerateOutputFifty)
   = Inr [\<lparr>index = 1, filePath = ''repomix-output.1.xml'', content = replicate 100 CHR ''x'',
           byteLength = 100, tokenCount = 0,
           groups = Some
            [\<lparr>rootEntry = ''a'', processedFiles = [\<lparr>path = ''a/one.ts'', content = ''one''\<rparr>],
              allFilePaths = [''a/one.ts'']\<rparr>,
             \<lparr>rootEntry = ''b'', processedFiles = [\<lparr>path = ''b/two.ts'', content = ''two''\<rparr>],
              allFilePaths = [''b/two.ts'']\<rparr>]\<rparr>,
          \<lparr>index = 2, filePath = ''repomix-output.2.xml'', content = replicate 50 CHR ''x'',
           byteLength = 50, tokenCount = 0,
           groups = Some
            [\<lparr>rootEntry = ''c'', processedFiles = [\<lparr>path = ''c/three.ts'', content = ''three''\<rparr>],
              allFilePaths = [''c/three.ts'']\<rparr>]\<rparr>] \<and>
   byteSplitSpec
     (byteTrial mockEnv [''/test''] mockConfig threeRootFiles
        [''a/one.ts'', ''b/two.ts'', ''c/three.ts''] None None mockGenerateOutputFifty)
     40 (buildOutputSplitGroups mockEnv threeRootFiles [''a/one.ts'', ''b/two.ts'', ''c/three.ts''])
     [] [] []
   = Inl (ExceedsMaxSize ''a'' 50 40) \<and>
   fst (generateSplitOutputPartsByBytes mockEnv [''/test''] mockConfig threeRootFiles
          [''a/one.ts'', ''b/two.ts'', ''c/three.ts''] 40 None None mockGenerateOutputFifty)
   = Inl (ExceedsMaxSize ''a'' 50 40)"
proof -
  let ?afps = "[''a/one.ts'', ''b/two.ts'', ''c/three.ts'']"
  let ?fin = "[([\<lparr>rootEntry = ''a'', processedFiles = [\<lparr>path = ''a/one.ts'', content = ''one''\<rparr>],
             allFilePaths = [''a/one.ts'']\<rparr>,
            \<lparr>rootEntry = ''b'', processedFiles = [\<lparr>path = ''b/two.ts'', content = ''two''\<rparr>],
             allFilePaths = [''b/two.ts'']\<rparr>], replicate 100 CHR ''x''),
          ([\<lparr>rootEntry = ''c'', processedFiles = [\<lparr>path = ''c/three.ts'', content = ''three''\<rparr>],
             allFilePaths = [''c/three.ts'']\<rparr>], replicate 50 CHR ''x'')]"
  have spec: "byteSplitSpec
     (byteTrial mockEnv [''/test''] mockConfig threeRootFiles ?afps None None mockGenerateOutputFifty)
     120 (buildOutputSplitGroups mockEnv threeRootFiles ?afps) [] [] [] = Inr ?fin"
    by code_simp
  have numbered: "map (bytePart (buildSplitOutputFilePath mockEnv
                         (OutputConfig.filePath (output mockConfig)))) (enumerate 1 ?fin)
   = [\<lparr>index = 1, filePath = ''repomix-output.1.xml'', content = replicate 100 CHR ''x'',
           byteLength = 100, tokenCount = 0,
           groups = Some
            [\<lparr>rootEntry = ''a'', processedFiles = [\<lparr>path = ''a/one.ts'', content = ''one''\<rparr>],
              allFilePaths = [''a/one.ts'']\<rparr>,
             \<lparr>rootEntry = ''b'', processedFiles = [\<lparr>path = ''b/two.ts'', content = ''two''\<rparr>],
              allFilePaths = [''b/two.ts'']\<rparr>]\<rparr>,
          \<lparr>index = 2, filePath = ''repomix-output.2.xml'', content = replicate 50 CHR ''x'',
           byteLength = 50, tokenCount = 0,
           groups = Some
            [\<lparr>rootEntry = ''c'', processedFiles = [\<lparr>path = ''c/three.ts'', content = ''three''\<rparr>],
              allFilePaths = [''c/three.ts'']\<rparr>]\<rparr>]"
    by code_simp
  have fails: "byteSplitSpec
     (byteTrial mockEnv [''/test''] mockConfig threeRootFiles ?afps None None mockGenerateOutputFifty)
     40 (buildOutputSplitGroups mockEnv threeRootFiles ?afps) [] [] []
     = Inl (ExceedsMaxSize ''a'' 50 40)"
    by code_simp
  have run: "fst (generateSplitOutputPartsByBytes mockEnv [''/test''] mockConfig threeRootFiles
          ?afps 120 None None mockGenerateOutputFifty)
     = Inr (map (bytePart (buildSplitOutputFilePath mockEnv
                         (OutputConfig.filePath (output mockConfig)))) (enumerate 1 ?fin))"
    using byBytes_follows_spec [where env = mockEnv and rootDirs = "[''/test'']"
        and baseConfig = mockConfig and pfs = threeRootFiles and afps = ?afps and budget = 120
        and gitDiffResult = None and gitLogResult = None and deps = mockGenerateOutputFifty]
    unfolding spec by (simp only: sum.case)
  have err: "fst (generateSplitOutputPartsByBytes mockEnv [''/test''] mockConfig threeRootFiles
          ?afps 40 None None mockGenerateOutputFifty) = Inl (ExceedsMaxSize ''a'' 50 40)"
    using byBytes_follows_spec [where env = mockEnv and rootDirs = "[''/test'']"
        and baseConfig = mockConfig and pfs = threeRootFiles and afps = ?afps and budget = 40
        and gitDiffResult = None and gitLogResult = None and deps = mockGenerateOutputFifty]
    unfolding fails by (simp only: sum.case)
  from spec run [unfolded numbered] fails err show ?thesis
    by (intro conjI)
qed

lemma byBytes_success:
  assumes "fst (generateSplitOutputPartsByBytes env rootDirs baseConfig pfs afps budget d l deps) = Inr ps"
  obtains res where
    "byteSplitSpec (byteTrial env rootDirs baseConfig pfs afps d l deps) budget
          (buildOutputSplitGroups env pfs afps) [] [] [] = Inr res"
    "ps = map (bytePart (buildSplitOutputFilePath env (OutputConfig.filePath (output baseConfig))))
            (enumerate 1 res)"
  using assms unfolding byBytes_spec specParts_def by (auto split: sum.splits)

text \<open>
  C3. In a byte split that succeeds, the content of every part has a UTF-8 length
  within the budget, and the part's \<open>byteLength\<close> is that length.
\<close>

theorem byBytes_parts_within_budget:
  assumes "fst (generateSplitOutputPartsByBytes env rootDirs baseConfig pfs afps budget
                  gitDiffResult gitLogResult deps) = Inr ps"
  shows "\<forall>p \<in> set ps. getUtf8ByteLength (content p) \<le> budget \<and>
                       byteLength p = getUtf8ByteLength (content p)"
proof
  fix p assume p: "p \<in> set ps"
  from assms obtain res where res:
    "byteSplitSpec (byteTrial env rootDirs baseConfig pfs afps gitDiffResult gitLogResult deps) budget
          (buildOutputSplitGroups env pfs afps) [] [] [] = Inr res"
    "ps = map (bytePart (buildSplitOutputFilePath env (OutputConfig.filePath (output baseConfig))))
            (enumerate 1 res)"
    by (rule byBytes_success)
  from byteSplitSpec_budget [OF res(1)] have b: "\<forall>x \<in> set res. getUtf8ByteLength (snd x) \<le> budget"
    by simp
  from p res(2) obtain k gs doc where "(k, gs, doc) \<in> set (enumerate 1 res)"
    "p = bytePart (buildSplitOutputFilePath env (OutputConfig.filePath (output baseConfig))) (k, gs, doc)"
    by auto
  moreover then have "(gs, doc) \<in> set res"
    by (metis enumerate_eq_zip set_zip_rightD)
  ultimately show "getUtf8ByteLength (content p) \<le> budget \<and>
                       byteLength p = getUtf8ByteLength (content p)"
    using b by (auto simp: bytePart_tuple)
qed

theorem byBytes_parts_within_budget_witness:
  "fst (generateSplitOutputPartsByBytes mockEnv [''/test''] mockConfig byteTestFiles
          [''src/a.ts'', ''tests/test.ts''] 70 None None mockGenerateOutputFifty)
   = Inr [\<lparr>index = 1, filePath = ''repomix-output.1.xml'', content = replicate 50 CHR ''x'',
           byteLength = 50, tokenCount = 0,
           groups = Some [\<lparr>rootEntry = ''src'',
                            processedFiles = [\<lparr>path = ''src/a.ts'', content = ''source a''\<rparr>],
                            allFilePaths = [''src/a.ts'']\<rparr>]\<rparr>,
          \<lparr>index = 2, filePath = ''repomix-output.2.xml'', content = replicate 50 CHR ''x'',
           byteLength = 50, tokenCount = 0,
           groups = Some [\<lparr>rootEntry = ''tests'',
                            processedFiles = [\<lparr>path = ''tests/test.ts'', content = ''test content''\<rparr>],
                            allFilePaths = [''tests/test.ts'']\<rparr>]\<rparr>] \<and>
   getUtf8ByteLength (replicate 50 CHR ''x'') \<le> 70 \<and>
   (50 :: nat) = getUtf8ByteLength (replicate 50 CHR ''x'')"
proof -
  have run: "fst (generateSplitOutputPartsByBytes mockEnv [''/test''] mockConfig byteTestFiles
          [''src/a.ts'', ''tests/test.ts''] 70 None None mockGenerateOutputFifty)
   = Inr [\<lparr>index = 1, filePath = ''repomix-output.1.xml'', content = replicate 50 CHR ''x'',
           byteLength = 50, tokenCount = 0,
           groups = Some [\<lparr>rootEntry = ''src'',
                            processedFiles = [\<lparr>path = ''src/a.ts'', content = ''source a''\<rparr>],
                            allFilePaths = [''src/a.ts'']\<rparr>]\<rparr>,
          \<lparr>index = 2, filePath = ''repomix-output.2.xml'', content = replicate 50 CHR ''x'',
           byteLength = 50, tokenCount = 0,
           groups = Some [\<lparr>rootEntry = ''tests'',
                            processedFiles = [\<lparr>path = ''tests/test.ts'', content = ''test content''\<rparr>],
                            allFilePaths = [''tests/test.ts'']\<rparr>]\<rparr>]"
    by code_simp
  from run byBytes_parts_within_budget [OF run] show ?thesis
    by simp
qed

section \<open>Every selected file in exactly one part\<close>

lemma concat_greedyPack: "concat (greedyPack est B fs batch running) = batch @ fs"
  by (induction fs arbitrary: batch running) auto

lemma concat_packFiles: "concat (packFiles tokenMap B pfs) = pfs"
proof -
  have "packFiles tokenMap B pfs = greedyPack (adjustedEstimate tokenMap) B pfs [] 0"
    unfolding packFiles_def
    using packLoop_greedyPack [of "\<lparr>partFileData = [], currentFiles = [], currentTokens = 0\<rparr>"]
    by simp
  then show ?thesis by (simp add: concat_greedyPack)
qed

lemma concat_pendingBatches:
  "pendingBatches env baseConfig B pfs = Inr batches \<Longrightarrow> concat batches = pfs"
  by (auto simp: pendingBatches_def tokenBatches_def Let_def concat_packFiles split: sum.splits)

lemma byteSplitSpec_rendered:
  "byteSplitSpec trial B gs fin acc doc = Inr res \<Longrightarrow>
   \<forall>x \<in> set (enumerate 1 fin). trial (fst x) (fst (snd x)) = Inr (snd (snd x)) \<Longrightarrow>
   acc \<noteq> [] \<longrightarrow> trial (length fin + 1) acc = Inr doc \<Longrightarrow>
   \<forall>x \<in> set (enumerate 1 res). trial (fst x) (fst (snd x)) = Inr (snd (snd x))"
proof (induction gs arbitrary: fin acc doc)
  case Nil
  then show ?case by (auto simp: enumerate_snoc split: if_splits)
next
  case (Cons g gs)
  show ?case
  proof (cases "trial (length fin + 1) (acc @ [g])")
    case (Inl e)
    with Cons.prems show ?thesis by simp
  next
    case (Inr t)
    show ?thesis
    proof (cases "getUtf8ByteLength t \<le> B")
      case True
      with Inr Cons.prems have "byteSplitSpec trial B gs fin (acc @ [g]) t = Inr res" by simp
      from Cons.IH [OF this Cons.prems(2)] Inr show ?thesis by simp
    next
      case False
      with Inr Cons.prems have ne: "acc \<noteq> []" by (auto split: if_splits)
      from False Inr Cons.prems ne obtain s where s: "trial (length fin + 2) [g] = Inr s"
        "\<not> getUtf8ByteLength s > B"
        "byteSplitSpec trial B gs (fin @ [(acc, doc)]) [g] s = Inr res"
        by (auto split: sum.splits if_splits)
      have "\<forall>x \<in> set (enumerate 1 (fin @ [(acc, doc)])). trial (fst x) (fst (snd x)) = Inr (snd (snd x))"
        using Cons.prems(2,3) ne by (auto simp: enumerate_snoc)
      from Cons.IH [OF s(3) this] s(1) show ?thesis by simp
    qed
  qed
qed

lemma filter_concat_groups:
  assumes "distinct (map rootEntry gs)"
      and "\<forall>g \<in> set gs. processedFiles g = filter (\<lambda>f. getRootEntry (path f) = rootEntry g) pfs"
  shows "filter (\<lambda>f. getRootEntry (path f) = r) (concat (map processedFiles gs))
         = (if r \<in> rootEntry ` set gs then filter (\<lambda>f. getRootEntry (path f) = r) pfs else [])"
  using assms
proof (induction gs)
  case Nil
  then show ?case by simp
next
  case (Cons g gs)
  have eq: "filter (\<lambda>f. getRootEntry (path f) = r) (processedFiles g)
        = (if rootEntry g = r then filter (\<lambda>f. getRootEntry (path f) = r) pfs else [])"
    using Cons.prems(2) by (auto simp: filter_empty_conv)
  from Cons.prems have d: "rootEntry g \<notin> rootEntry ` set gs" by simp
  from Cons.prems have "distinct (map rootEntry gs)"
    "\<forall>g \<in> set gs. processedFiles g = filter (\<lambda>f. getRootEntry (path f) = rootEntry g) pfs"
    by simp_all
  from Cons.IH [OF this] have IH:
    "filter (\<lambda>f. getRootEntry (path f) = r) (concat (map processedFiles gs))
         = (if r \<in> rootEntry ` set gs then filter (\<lambda>f. getRootEntry (path f) = r) pfs else [])" .
  show ?case
    using d by (auto simp: eq IH)
qed

lemma mset_eq_by_key:
  assumes "\<And>r. filter (\<lambda>x. k x = r) xs = filter (\<lambda>x. k x = r) ys"
  shows "mset xs = mset ys"
proof (rule multiset_eqI)
  fix x
  have "count (mset xs) x = count (mset (filter (\<lambda>y. k y = k x) xs)) x"
    by (simp add: count_mset)
  also have "\<dots> = count (mset (filter (\<lambda>y. k y = k x) ys)) x"
    by (simp only: assms)
  also have "\<dots> = count (mset ys) x"
    by (simp add: count_mset)
  finally show "count (mset xs) x = count (mset ys) x" .
qed

lemma groups_files:
  "filter (\<lambda>f. getRootEntry (path f) = r)
     (concat (map processedFiles (buildOutputSplitGroups env pfs afps)))
   = filter (\<lambda>f. getRootEntry (path f) = r) pfs"
proof -
  let ?gs = "buildOutputSplitGroups env pfs afps"
  have g: "\<forall>g \<in> set ?gs. processedFiles g = filter (\<lambda>f. getRootEntry (path f) = rootEntry g) pfs"
    using build_props(3) [of env pfs afps] by (metis groupFor_def OutputSplitGroup.select_convs(2))
  have "filter (\<lambda>f. getRootEntry (path f) = r) (concat (map processedFiles ?gs))
         = (if r \<in> rootEntry ` set ?gs then filter (\<lambda>f. getRootEntry (path f) = r) pfs else [])"
    by (rule filter_concat_groups [OF build_props(1) g])
  moreover have "r \<notin> rootEntry ` set ?gs \<Longrightarrow> filter (\<lambda>f. getRootEntry (path f) = r) pfs = []"
    using build_props(2) [of env pfs afps] by (auto simp: filter_empty_conv)
  ultimately show ?thesis by auto
qed

lemma partFiles_bytePart: "partFiles (bytePart mkPath (k, gs, doc)) = concat (map processedFiles gs)"
  by (simp add: partFiles_def bytePart_tuple)

lemma map_partFiles_byteParts:
  "map partFiles (map (bytePart mkPath) (enumerate n res))
   = map (\<lambda>y. concat (map processedFiles (fst y))) res"
  by (induction res arbitrary: n) (auto simp: partFiles_bytePart)

lemma concat_part_files:
  "concat (map (\<lambda>y. concat (map processedFiles (fst y))) res)
   = concat (map processedFiles (concat (map fst res)))"
  by (induction res) auto

text \<open>
  C1, as the code has it. In a token split that succeeds, the parts are the renderings
  of the pending batches, in order, and the batches concatenated are exactly the list
  of selected files. In a byte split that succeeds, every part is the rendering of the
  files of its groups, and these files, concatenated in part order, are the selected
  files regrouped by root entry (the groups in their sorted order): each selected file
  occurs exactly once, and the input order is kept among the files of one root entry.
\<close>

theorem split_keeps_every_file:
  "(fst (generateSplitOutputPartsByTokens env rootDirs baseConfig pfs afps budget
           gitDiffResult gitLogResult deps) = Inr ps \<longrightarrow>
      (\<exists>batches. pendingBatches env baseConfig budget pfs = Inr batches \<and>
         concat batches = pfs \<and>
         list_all2 (\<lambda>files p.
              renderedPart rootDirs baseConfig afps gitDiffResult gitLogResult deps
                (length batches) (index p) files = Inr (content p)) batches ps))
   \<and> (fst (generateSplitOutputPartsByBytes env rootDirs baseConfig pfs afps budget
             gitDiffResult gitLogResult deps) = Inr ps \<longrightarrow>
        concat (map partFiles ps)
          = concat (map processedFiles (buildOutputSplitGroups env pfs afps))
      \<and> mset (concat (map partFiles ps)) = mset pfs
      \<and> (\<forall>r. filter (\<lambda>f. getRootEntry (path f) = r) (concat (map partFiles ps))
               = filter (\<lambda>f. getRootEntry (path f) = r) pfs)
      \<and> (\<forall>p \<in> set ps.
            renderedPart rootDirs baseConfig afps gitDiffResult gitLogResult deps
              (length (buildOutputSplitGroups env pfs afps)) (index p) (partFiles p)
            = Inr (content p)))"
proof (intro conjI impI)
  assume a: "fst (generateSplitOutputPartsByTokens env rootDirs baseConfig pfs afps budget
           gitDiffResult gitLogResult deps) = Inr ps"
  from byTokens_batches_parts [OF a] obtain batches where b:
    "pendingBatches env baseConfig budget pfs = Inr batches"
    "list_all2 (\<lambda>files p.
              renderedPart rootDirs baseConfig afps gitDiffResult gitLogResult deps
                (length batches) (index p) files = Inr (content p) \<and>
              exactTokenCount env baseConfig (content p) = Inr (tokenCount p) \<and>
              (length files = 1 \<longrightarrow> tokenCount p \<le> budget)) batches ps"
    by blast
  from b(2) have "list_all2 (\<lambda>files p.
              renderedPart rootDirs baseConfig afps gitDiffResult gitLogResult deps
                (length batches) (index p) files = Inr (content p)) batches ps"
    by (rule list_all2_mono) simp
  with b(1) concat_pendingBatches [OF b(1)]
  show "\<exists>batches. pendingBatches env baseConfig budget pfs = Inr batches \<and>
         concat batches = pfs \<and>
         list_all2 (\<lambda>files p.
              renderedPart rootDirs baseConfig afps gitDiffResult gitLogResult deps
                (length batches) (index p) files = Inr (content p)) batches ps"
    by blast
next
  assume a: "fst (generateSplitOutputPartsByBytes env rootDirs baseConfig pfs afps budget
             gitDiffResult gitLogResult deps) = Inr ps"
  let ?mk = "buildSplitOutputFilePath env (OutputConfig.filePath (output baseConfig))"
  let ?gs = "buildOutputSplitGroups env pfs afps"
  let ?trial = "byteTrial env rootDirs baseConfig pfs afps gitDiffResult gitLogResult deps"
  from a obtain res where res:
    "byteSplitSpec ?trial budget ?gs [] [] [] = Inr res"
    "ps = map (bytePart ?mk) (enumerate 1 res)"
    by (rule byBytes_success)
  from byteSplitSpec_groups [OF res(1)] have g: "concat (map fst res) = ?gs" by simp
  show files: "concat (map partFiles ps) = concat (map processedFiles ?gs)"
    unfolding res(2) map_partFiles_byteParts concat_part_files g ..
  show byroot: "\<forall>r. filter (\<lambda>f. getRootEntry (path f) = r) (concat (map partFiles ps))
               = filter (\<lambda>f. getRootEntry (path f) = r) pfs"
    unfolding files by (simp add: groups_files)
  show "mset (concat (map partFiles ps)) = mset pfs"
    by (rule mset_eq_by_key [where k = "\<lambda>f. getRootEntry (path f)"]) (simp add: byroot)
  have "\<forall>x \<in> set (enumerate 1 res). ?trial (fst x) (fst (snd x)) = Inr (snd (snd x))"
    by (rule byteSplitSpec_rendered [OF res(1)]) simp_all
  then show "\<forall>p \<in> set ps.
            renderedPart rootDirs baseConfig afps gitDiffResult gitLogResult deps
              (length ?gs) (index p) (partFiles p) = Inr (content p)"
    unfolding res(2) by (force simp: partFiles_def bytePart_tuple byteTrial_def)
qed

text \<open>
  C1 as stated fails in byte mode: of three selected files given in the order
  \<open>src/a.ts\<close>, \<open>tests/test.ts\<close>, \<open>src/b.ts\<close> the single part returned embeds the two
  files under \<open>src\<close> first and the file under \<open>tests\<close> last.
\<close>

theorem byBytes_regroups_files:
  "fst (generateSplitOutputParts mockEnv [''/test''] mockConfig
          [\<lparr>path = ''src/a.ts'', content = ''source a''\<rparr>,
           \<lparr>path = ''tests/test.ts'', content = ''test content''\<rparr>,
           \<lparr>path = ''src/b.ts'', content = ''source b''\<rparr>]
          [''src/a.ts'', ''tests/test.ts'', ''src/b.ts''] (Some (Finite 200)) None None None
          mockGenerateOutputFifty)
   = Inr [\<lparr>index = 1, filePath = ''repomix-output.1.xml'', content = replicate 150 CHR ''x'',
           byteLength = 150, tokenCount = 0,
           groups = Some [\<lparr>rootEntry = ''src'',
                            processedFiles = [\<lparr>path = ''src/a.ts'', content = ''source a''\<rparr>,
                                              \<lparr>path = ''src/b.ts'', content = ''source b''\<rparr>],
                            allFilePaths = [''src/a.ts'', ''src/b.ts'']\<rparr>,
                          \<lparr>rootEntry = ''tests'',
                            processedFiles = [\<lparr>path = ''tests/test.ts'', content = ''test content''\<rparr>],
                            allFilePaths = [''tests/test.ts'']\<rparr>]\<rparr>] \<and>
   [\<lparr>path = ''src/a.ts'', content = ''source a''\<rparr>,
    \<lparr>path = ''src/b.ts'', content = ''source b''\<rparr>,
    \<lparr>path = ''tests/test.ts'', content = ''test content''\<rparr>]
   \<noteq> [\<lparr>path = ''src/a.ts'', content = ''source a''\<rparr>,
      \<lparr>path = ''tests/test.ts'', content = ''test content''\<rparr>,
      \<lparr>path = ''src/b.ts'', content = ''source b''\<rparr>]"
  by code_simp

theorem split_keeps_every_file_witness:
  "fst (generateSplitOutputPartsByTokens mockEnv [''/test''] mockConfig tokenTestFiles
          [''file1.ts'', ''file2.ts'', ''file3.ts''] 100 None None mockGenerateOutputPaths)
   = Inr [\<lparr>index = 1, filePath = ''repomix-output.1.xml'', content = ''file1.ts'',
           byteLength = 8, tokenCount = 60, groups = None\<rparr>,
          \<lparr>index = 2, filePath = ''repomix-output.2.xml'', content = ''file2.ts'',
           byteLength = 8, tokenCount = 60, groups = None\<rparr>,
          \<lparr>index = 3, filePath = ''repomix-output.3.xml'', content = ''file3.ts'',
           byteLength = 8, tokenCount = 60, groups = None\<rparr>] \<and>
   pendingBatches mockEnv mockConfig 100 tokenTestFiles
   = Inr [[\<lparr>path = ''file1.ts'', content = ''content1''\<rparr>],
          [\<lparr>path = ''file2.ts'', content = ''content2''\<rparr>],
          [\<lparr>path = ''file3.ts'', content = ''content3''\<rparr>]] \<and>
   concat [[\<lparr>path = ''file1.ts'', content = ''content1''\<rparr>],
          [\<lparr>path = ''file2.ts'', content = ''content2''\<rparr>],
          [\<lparr>path = ''file3.ts'', content = ''content3''\<rparr>]] = tokenTestFiles \<and>
   fst (generateSplitOutputPartsByBytes mockEnv [''/test''] mockConfig
          [\<lparr>path = ''tests/test.ts'', content = ''test content''\<rparr>,
           \<lparr>path = ''src/a.ts'', content = ''source a''\<rparr>]
          [''tests/test.ts'', ''src/a.ts''] 70 None None mockGenerateOutputFifty)
   = Inr [\<lparr>index = 1, filePath = ''repomix-output.1.xml'', content = replicate 50 CHR ''x'',
           byteLength = 50, tokenCount = 0,
           groups = Some [\<lparr>rootEntry = ''src'',
                            processedFiles = [\<lparr>path = ''src/a.ts'', content = ''source a''\<rparr>],
                            allFilePaths = [''src/a.ts'']\<rparr>]\<rparr>,
          \<lparr>index = 2, filePath = ''repomix-output.2.xml'', content = replicate 50 CHR ''x'',
           byteLength = 50, tokenCount = 0,
           groups = Some [\<lparr>rootEntry = ''tests'',
                            processedFiles = [\<lparr>path = ''tests/test.ts'', content = ''test content''\<rparr>],
                            allFilePaths = [''tests/test.ts'']\<rparr>]\<rparr>] \<and>
   concat (map partFiles [\<lparr>index = 1, filePath = ''repomix-output.1.xml'', content = replicate 50 CHR ''x'',
           byteLength = 50, tokenCount = 0,
           groups = Some [\<lparr>rootEntry = ''src'',
                            processedFiles = [\<lparr>path = ''src/a.ts'', content = ''source a''\<rparr>],
                            allFilePaths = [''src/a.ts'']\<rparr>]\<rparr>,
          \<lparr>index = 2, filePath = ''repomix-output.2.xml'', content = replicate 50 CHR ''x'',
           byteLength = 50, tokenCount = 0,
           groups = Some [\<lparr>rootEntry = ''tests'',
                            processedFiles = [\<lparr>path = ''tests/test.ts'', content = ''test content''\<rparr>],
                            allFilePaths = [''tests/test.ts'']\<rparr>]\<rparr>])
   = [\<lparr>path = ''src/a.ts'', content = ''source a''\<rparr>,
      \<lparr>path = ''tests/test.ts'', content = ''test content''\<rparr>] \<and>
   mset [\<lparr>path = ''src/a.ts'', content = ''source a''\<rparr>,
         \<lparr>path = ''tests/test.ts'', content = ''test content''\<rparr>]
   = mset [\<lparr>path = ''tests/test.ts'', content = ''test content''\<rparr>,
           \<lparr>path = ''src/a.ts'', content = ''source a''\<rparr>]"
proof -
  let ?ps1 = "[\<lparr>index = 1, filePath = ''repomix-output.1.xml'', content = ''file1.ts'',
           byteLength = 8, tokenCount = 60, groups = None\<rparr>,
          \<lparr>index = 2, filePath = ''repomix-output.2.xml'', content = ''file2.ts'',
           byteLength = 8, tokenCount = 60, groups = None\<rparr>,
          \<lparr>index = 3, filePath = ''repomix-output.3.xml'', content = ''file3.ts'',
           byteLength = 8, tokenCount = 60, groups = None\<rparr>]"
  let ?ps2 = "[\<lparr>index = 1, filePath = ''repomix-output.1.xml'', content = replicate 50 CHR ''x'',
           byteLength = 50, tokenCount = 0,
           groups = Some [\<lparr>rootEntry = ''src'',
                            processedFiles = [\<lparr>path = ''src/a.ts'', content = ''source a''\<rparr>],
                            allFilePaths = [''src/a.ts'']\<rparr>]\<rparr>,
          \<lparr>index = 2, filePath = ''repomix-output.2.xml'', content = replicate 50 CHR ''x'',
           byteLength = 50, tokenCount = 0,
           groups = Some [\<lparr>rootEntry = ''tests'',
                            processedFiles = [\<lparr>path = ''tests/test.ts'', content = ''test content''\<rparr>],
                            allFilePaths = [''tests/test.ts'']\<rparr>]\<rparr>]"
  let ?pfs2 = "[\<lparr>path = ''tests/test.ts'', content = ''test content''\<rparr>,
           \<lparr>path = ''src/a.ts'', content = ''source a''\<rparr>]"
  have run1: "fst (generateSplitOutputPartsByTokens mockEnv [''/test''] mockConfig tokenTestFiles
          [''file1.ts'', ''file2.ts'', ''file3.ts''] 100 None None mockGenerateOutputPaths)
   = Inr ?ps1"
    by code_simp
  have pb: "pendingBatches mockEnv mockConfig 100 tokenTestFiles
   = Inr [[\<lparr>path = ''file1.ts'', content = ''content1''\<rparr>],
          [\<lparr>path = ''file2.ts'', content = ''content2''\<rparr>],
          [\<lparr>path = ''file3.ts'', content = ''content3''\<rparr>]]"
    by code_simp
  have run2: "fst (generateSplitOutputPartsByBytes mockEnv [''/test''] mockConfig ?pfs2
          [''tests/test.ts'', ''src/a.ts''] 70 None None mockGenerateOutputFifty)
   = Inr ?ps2"
    by code_simp
  have files: "concat (map partFiles ?ps2)
   = [\<lparr>path = ''src/a.ts'', content = ''source a''\<rparr>,
      \<lparr>path = ''tests/test.ts'', content = ''test content''\<rparr>]"
    by (simp add: partFiles_def)
  from run1 split_keeps_every_file [where env = mockEnv and rootDirs = "[''/test'']"
      and baseConfig = mockConfig and pfs = tokenTestFiles
      and afps = "[''file1.ts'', ''file2.ts'', ''file3.ts'']" and budget = 100
      and gitDiffResult = None and gitLogResult = None and deps = mockGenerateOutputPaths
      and ps = ?ps1]
  obtain batches where "pendingBatches mockEnv mockConfig 100 tokenTestFiles = Inr batches"
    "concat batches = tokenTestFiles"
    by blast
  with pb have c1: "concat [[\<lparr>path = ''file1.ts'', content = ''content1''\<rparr>],
          [\<lparr>path = ''file2.ts'', content = ''content2''\<rparr>],
          [\<lparr>path = ''file3.ts'', content = ''content3''\<rparr>]] = tokenTestFiles"
    by simp
  from run2 split_keeps_every_file [where env = mockEnv and rootDirs = "[''/test'']"
      and baseConfig = mockConfig and pfs = ?pfs2
      and afps = "[''tests/test.ts'', ''src/a.ts'']" and budget = 70
      and gitDiffResult = None and gitLogResult = None and deps = mockGenerateOutputFifty
      and ps = ?ps2]
  have "mset (concat (map partFiles ?ps2)) = mset ?pfs2"
    by blast
  then have m: "mset [\<lparr>path = ''src/a.ts'', content = ''source a''\<rparr>,
         \<lparr>path = ''tests/test.ts'', content = ''test content''\<rparr>] = mset ?pfs2"
    unfolding files .
  from run1 pb c1 run2 files m show ?thesis
    by (intro conjI)
qed

end
